theory Spec2Isabelle
  imports Complex_Main "HOL-Library.Multiset" "HOL-Library.Sublist"
begin

section \<open>Errors and traced computations\<close>

text \<open>
  The two orchestration modules (\<^verbatim>\<open>code/training/main.py\<close> and
  \<^verbatim>\<open>code/inference/main.py\<close>) are straight-line Python around calls into
  collaborators (the model zoo, the datasets, the predictors, the metrics, numpy and pandas).
  A collaborator is a parameter of the model: a function that returns either a value or the
  exception it raises. The Python-level exceptions of the orchestration code itself are
  \<open>TypeError\<close> (\<^verbatim>\<open>None + str\<close>) and \<open>IndexError\<close> (\<^verbatim>\<open>values[-1]\<close> of an empty array);
  \<open>Raised msg\<close> is an exception that comes out of a collaborator.
\<close>

datatype error = TypeError | IndexError | Raised string

text \<open>
  A computation takes the trace of the run so far and returns the trace at the moment it
  returns or raises, with its outcome. An entry of the trace is a call that returned
  (\<open>Done\<close>), a call that raised (\<open>Failed\<close>), or an exception raised by the orchestration
  code itself (\<open>Thrown\<close>). Traces are kept newest first, so a moment of the run is a suffix
  of the final trace; \<open>events\<close> lists the calls of a trace in the order they were made.
\<close>

datatype 'ev entry = Done 'ev | Failed 'ev error | Thrown error

type_synonym ('ev, 'a) run = "'ev entry list \<Rightarrow> 'ev entry list \<times> (error + 'a)"

definition ret :: "'a \<Rightarrow> ('ev, 'a) run" where
  "ret x tr = (tr, Inr x)"

definition throw :: "error \<Rightarrow> ('ev, 'a) run" where
  "throw e tr = (Thrown e # tr, Inl e)"

definition emit :: "'ev \<Rightarrow> ('ev, unit) run" where
  "emit ev tr = (Done ev # tr, Inr ())"

definition call :: "'ev \<Rightarrow> error + 'a \<Rightarrow> ('ev, 'a) run" where
  "call ev r tr = ((case r of Inl e \<Rightarrow> Failed ev e | Inr _ \<Rightarrow> Done ev) # tr, r)"

definition bnd :: "('ev, 'a) run \<Rightarrow> ('a \<Rightarrow> ('ev, 'b) run) \<Rightarrow> ('ev, 'b) run" where
  "bnd m f tr = (case m tr of (tr', Inl e) \<Rightarrow> (tr', Inl e) | (tr', Inr x) \<Rightarrow> f x tr')"

fun attempted :: "'ev entry \<Rightarrow> 'ev list" where
  "attempted (Done ev) = [ev]"
| "attempted (Failed ev e) = [ev]"
| "attempted (Thrown e) = []"

definition events :: "'ev entry list \<Rightarrow> 'ev list" where
  "events tr = concat (map attempted (rev tr))"

fun raised :: "'ev entry \<Rightarrow> error option" where
  "raised (Done ev) = None"
| "raised (Failed ev e) = Some e"
| "raised (Thrown e) = Some e"

section \<open>Inference: \<^verbatim>\<open>validate_inf\<close> and \<^verbatim>\<open>k_fold_inf\<close>\<close>

datatype table = Dataset_information | Rles bool | Rles_full

datatype ievent =
    Read_csv table
  | Predict_entire_mask nat string
  | Predict_entire_mask_downscaled nat string
  | Tweak_threshold string
  | Lookup_shape string
  | Enc2mask string
  | Save_pred string
  | Threshold_resize_torch string real
  | Threshold_gt string real
  | Dice_scores_img string
  | Define_model_inf nat
  | Load_model_weights nat

text \<open>
  The collaborators of \<^verbatim>\<open>validate_inf\<close>. A model object is named by a number. The
  construction of the \<^verbatim>\<open>InferenceDataset\<close> of an image is part of the predictor here;
  \<open>lookup_shape\<close> is \<^verbatim>\<open>df_info[df_info.image_file == img + ".tiff"][...].values.astype(int)[0]\<close>.
  \<open>'p\<close> is the type of probability masks, \<open>'b\<close> of binary masks and \<open>'g\<close> of ground truths.
\<close>

record ('p, 'b, 'g) inf_env =
  read_csv :: "table \<Rightarrow> error + unit"
  predict_entire_mask :: "nat \<Rightarrow> string \<Rightarrow> bool \<Rightarrow> error + 'p"
  predict_entire_mask_downscaled :: "nat \<Rightarrow> string \<Rightarrow> bool \<Rightarrow> error + 'p"
  tweak_threshold :: "string \<Rightarrow> 'p \<Rightarrow> error + (real \<times> real)"
  lookup_shape :: "string \<Rightarrow> error + (int \<times> int)"
  enc2mask :: "string \<Rightarrow> int \<times> int \<Rightarrow> error + 'g"
  np_save_pred :: "string \<Rightarrow> string \<Rightarrow> 'p \<Rightarrow> error + unit"
  threshold_resize_torch :: "'p \<Rightarrow> int \<times> int \<Rightarrow> real \<Rightarrow> error + 'b"
  threshold_gt :: "'p \<Rightarrow> real \<Rightarrow> 'b"
  dice_scores_img :: "'b \<Rightarrow> 'g \<Rightarrow> error + real"
  define_model_inf :: "nat \<Rightarrow> error + unit"
  load_model_weights :: "nat \<Rightarrow> string \<Rightarrow> nat \<Rightarrow> error + unit"

text \<open>
  Lines 61 to 77 of \<^verbatim>\<open>validate_inf\<close>: the prediction of one image and the threshold
  and score that come with it.
\<close>

definition predict_and_tune ::
  "('p, 'b, 'g) inf_env \<Rightarrow> nat \<Rightarrow> bool \<Rightarrow> bool \<Rightarrow> string \<Rightarrow> (ievent, 'p \<times> real \<times> real) run" where
  "predict_and_tune env model use_full_size use_tta img =
     (if use_full_size then
        bnd (call (Predict_entire_mask model img) (predict_entire_mask env model img use_tta))
          (\<lambda>global_pred. ret (global_pred, 4 / 10, 0))
      else
        bnd (call (Predict_entire_mask_downscaled model img)
               (predict_entire_mask_downscaled env model img use_tta))
          (\<lambda>global_pred.
        bnd (call (Tweak_threshold img) (tweak_threshold env img global_pred))
          (\<lambda>(threshold, score). ret (global_pred, threshold, score))))"

text \<open>
  The body of the loop of \<^verbatim>\<open>validate_inf\<close> for one image. The variable
  \<^verbatim>\<open>global_threshold\<close> is the function's argument, assigned again at line 84 of every
  iteration: its value goes in and its new value comes out, with the image's score.
\<close>

definition validate_inf_image ::
  "('p, 'b, 'g) inf_env \<Rightarrow> nat \<Rightarrow> string option \<Rightarrow> bool \<Rightarrow> bool \<Rightarrow> bool \<Rightarrow> string \<Rightarrow>
     real option \<Rightarrow> (ievent, real option \<times> real) run" where
  "validate_inf_image env model log_folder use_full_size use_tta save img global_threshold =
     bnd (predict_and_tune env model use_full_size use_tta img)
       (\<lambda>(global_pred, threshold, score).
     bnd (call (Lookup_shape img) (lookup_shape env img))
       (\<lambda>shape.
     bnd (call (Enc2mask img) (enc2mask env img shape))
       (\<lambda>mask_truth.
     let global_threshold' = (case global_threshold of Some g \<Rightarrow> g | None \<Rightarrow> threshold) in
     bnd (if save then
            (case log_folder of
               None \<Rightarrow> throw TypeError
             | Some folder \<Rightarrow> call (Save_pred img) (np_save_pred env folder img global_pred))
          else ret ())
       (\<lambda>_.
     bnd (if \<not> use_full_size then
            call (Threshold_resize_torch img global_threshold')
              (threshold_resize_torch env global_pred shape global_threshold')
          else
            bnd (emit (Threshold_gt img global_threshold'))
              (\<lambda>_. ret (threshold_gt env global_pred global_threshold')))
       (\<lambda>binary.
     bnd (call (Dice_scores_img img) (dice_scores_img env binary mask_truth))
       (\<lambda>score'. ret (Some global_threshold', score')))))))"

fun validate_inf_loop ::
  "('p, 'b, 'g) inf_env \<Rightarrow> nat \<Rightarrow> string option \<Rightarrow> bool \<Rightarrow> bool \<Rightarrow> bool \<Rightarrow> string list \<Rightarrow>
     real option \<Rightarrow> real list \<Rightarrow> (ievent, real list) run" where
  "validate_inf_loop env model log_folder use_full_size use_tta save [] global_threshold scores tr =
     (tr, Inr scores)"
| "validate_inf_loop env model log_folder use_full_size use_tta save (img # imgs) global_threshold scores tr =
     (case validate_inf_image env model log_folder use_full_size use_tta save img global_threshold tr of
        (tr', Inl e) \<Rightarrow> (tr', Inl e)
      | (tr', Inr (global_threshold', score)) \<Rightarrow>
          validate_inf_loop env model log_folder use_full_size use_tta save imgs
            global_threshold' (scores @ [score]) tr')"

definition validate_inf ::
  "('p, 'b, 'g) inf_env \<Rightarrow> nat \<Rightarrow> string list \<Rightarrow> string option \<Rightarrow> bool \<Rightarrow> real option \<Rightarrow> bool \<Rightarrow>
     bool \<Rightarrow> (ievent, real list) run" where
  "validate_inf env model val_images log_folder use_full_size global_threshold use_tta save =
     bnd (call (Read_csv Dataset_information) (read_csv env Dataset_information))
       (\<lambda>_.
     bnd (call (Read_csv (Rles use_full_size)) (read_csv env (Rles use_full_size)))
       (\<lambda>_.
     bnd (call (Read_csv Rles_full) (read_csv env Rles_full))
       (\<lambda>_.
     validate_inf_loop env model log_folder use_full_size use_tta save val_images
       global_threshold [])))"

text \<open>
  The thresholds at which a run binarised its images, in the order of the run: the
  \<^verbatim>\<open>threshold\<close> argument of \<^verbatim>\<open>threshold_resize_torch\<close> and the right-hand side of
  \<^verbatim>\<open>global_pred > global_threshold\<close>.
\<close>

fun binarised_at :: "ievent \<Rightarrow> (string \<times> real) list" where
  "binarised_at (Threshold_resize_torch img t) = [(img, t)]"
| "binarised_at (Threshold_gt img t) = [(img, t)]"
| "binarised_at _ = []"

definition thresholds_used :: "ievent entry list \<Rightarrow> (string \<times> real) list" where
  "thresholds_used tr = concat (map binarised_at (events tr))"

section \<open>Dataframes, folds and the configuration\<close>

text \<open>
  A dataframe is the list of its rows; of a row the functions read the value in the column
  \<^verbatim>\<open>config.cv_column\<close> and the \<^verbatim>\<open>tile_name\<close>. Fold values are compared with HOL's
  equality, as pandas compares values that are not NaN. \<^verbatim>\<open>reset_index()\<close> renumbers the
  rows of a selection and leaves their contents alone.
\<close>

record 'c row =
  cv :: 'c
  tile_name :: string

record config =
  selected_folds :: "int list"
  save_weights :: bool
  decoder :: string
  encoder :: string

text \<open>\<^verbatim>\<open>Series.unique()\<close>: the distinct values in the order of their first appearance.\<close>

fun unique_from :: "'a list \<Rightarrow> 'a list \<Rightarrow> 'a list" where
  "unique_from seen [] = []"
| "unique_from seen (x # xs) =
     (if x \<in> set seen then unique_from seen xs else x # unique_from (x # seen) xs)"

definition unique :: "'a list \<Rightarrow> 'a list" where
  "unique xs = unique_from [] xs"

text \<open>\<^verbatim>\<open>x.split("_")[0]\<close>: the part of \<open>x\<close> before its first underscore.\<close>

definition split_0 :: "string \<Rightarrow> string" where
  "split_0 x = takeWhile (\<lambda>c. c \<noteq> CHR ''_'') x"

definition df_train_of :: "'c row list \<Rightarrow> 'c \<Rightarrow> 'c row list" where
  "df_train_of df fold' = filter (\<lambda>r. cv r \<noteq> fold') df"

definition df_val_of :: "'c row list \<Rightarrow> 'c \<Rightarrow> 'c row list" where
  "df_val_of df fold' = filter (\<lambda>r. cv r = fold') df"

definition val_images_of :: "'c row list \<Rightarrow> string list" where
  "val_images_of df_val = unique (map (\<lambda>r. split_0 (tile_name r)) df_val)"

text \<open>\<^verbatim>\<open>str(n)\<close> of a natural number, and \<^verbatim>\<open>sub in s\<close> on strings.\<close>

fun str_nat :: "nat \<Rightarrow> string" where
  "str_nat n =
     (if n < 10 then [''0123456789'' ! n]
      else str_nat (n div 10) @ [''0123456789'' ! (n mod 10)])"

declare str_nat.simps [simp del]

fun str_contains :: "string \<Rightarrow> string \<Rightarrow> bool" where
  "str_contains sub [] = (sub = [])"
| "str_contains sub (c # cs) = (prefix sub (c # cs) \<or> str_contains sub cs)"

definition weights_name :: "config \<Rightarrow> nat \<Rightarrow> string" where
  "weights_name config fold' = decoder config @ ''_'' @ encoder config @ ''_'' @ str_nat fold' @ ''.pt''"

section \<open>Training: \<^verbatim>\<open>train\<close>, \<^verbatim>\<open>validate\<close> and \<^verbatim>\<open>k_fold\<close>\<close>

datatype 'c tevent =
    Seed_everything
  | Define_model nat
  | Fit nat "'c row list" "'c row list"
  | Save_model_weights nat string
  | Save_as_jit nat string
  | Read_rles bool
  | Plot_thresh_scores nat string
  | Save_global_pred string
  | Del_model nat
  | Empty_cache
  | Save_pred_mask nat
  | History_to_csv nat
  | Del_meter
  | Gc_collect
  | Print_average "real option" "real option"

text \<open>
  The collaborators of the training side. The model that \<^verbatim>\<open>train\<close> builds for fold
  number \<open>i\<close> is named \<open>i\<close>. \<open>fit\<close> stands for the two \<^verbatim>\<open>TileDataset\<close>s and the call of
  \<^verbatim>\<open>fit\<close>; it returns the meter (of type \<open>'mt\<close>) and \<^verbatim>\<open>history.dice.values\<close>, one dice
  score per epoch. \<open>plot_thresh_scores\<close> stands for the \<^verbatim>\<open>InferenceDataset\<close> of an image,
  \<^verbatim>\<open>predict_entire_mask_no_thresholding\<close> and \<^verbatim>\<open>plot_thresh_scores\<close>; it returns the
  threshold and the score.
\<close>

record ('c, 'mt) train_env =
  define_model :: "nat \<Rightarrow> error + unit"
  fit :: "nat \<Rightarrow> 'c row list \<Rightarrow> 'c row list \<Rightarrow> error + ('mt \<times> real list)"
  save_model_weights :: "nat \<Rightarrow> string \<Rightarrow> string \<Rightarrow> error + unit"
  save_as_jit :: "nat \<Rightarrow> string \<Rightarrow> string \<Rightarrow> error + unit"
  read_rles :: "bool \<Rightarrow> error + unit"
  plot_thresh_scores :: "nat \<Rightarrow> string \<Rightarrow> bool \<Rightarrow> error + (real \<times> real)"
  np_save_global_pred :: "string \<Rightarrow> string \<Rightarrow> error + unit"
  np_save_pred_mask :: "string \<Rightarrow> nat \<Rightarrow> 'mt \<Rightarrow> error + unit"
  history_to_csv :: "string \<Rightarrow> nat \<Rightarrow> real list \<Rightarrow> error + unit"

definition train ::
  "('c, 'mt) train_env \<Rightarrow> config \<Rightarrow> 'c row list \<Rightarrow> 'c row list \<Rightarrow> nat \<Rightarrow> string option \<Rightarrow>
     ('c tevent, 'mt \<times> real list \<times> nat) run" where
  "train env config df_train df_val fold' log_folder =
     bnd (emit Seed_everything)
       (\<lambda>_.
     bnd (call (Define_model fold') (define_model env fold'))
       (\<lambda>_.
     let model = fold' in
     bnd (call (Fit model df_train df_val) (fit env model df_train df_val))
       (\<lambda>(meter, history).
     bnd (case log_folder of
            None \<Rightarrow> ret ()
          | Some folder \<Rightarrow>
              if save_weights config then
                (let name = weights_name config fold' in
                 bnd (call (Save_model_weights model name) (save_model_weights env model name folder))
                   (\<lambda>_.
                 if \<not> str_contains ''efficientnet'' name
                 then call (Save_as_jit model name) (save_as_jit env model folder name)
                 else ret ()))
              else ret ())
       (\<lambda>_. ret (meter, history, model)))))"

text \<open>
  The two lists of \<^verbatim>\<open>validate\<close> are objects of a store, so that an element of a list can
  be a number or a reference to a list.
\<close>

datatype pyval = PFloat real | PList nat

type_synonym store = "nat \<rightharpoonup> pyval list"

definition scores_addr :: nat where
  "scores_addr = 0"

definition thresholds_addr :: nat where
  "thresholds_addr = 1"

definition list_append :: "nat \<Rightarrow> pyval \<Rightarrow> store \<Rightarrow> store" where
  "list_append a v st = st(a \<mapsto> (case st a of None \<Rightarrow> [v] | Some xs \<Rightarrow> xs @ [v]))"

definition validate_image ::
  "('c, 'mt) train_env \<Rightarrow> nat \<Rightarrow> string option \<Rightarrow> bool \<Rightarrow> string \<Rightarrow> store \<Rightarrow> ('c tevent, store) run" where
  "validate_image env model log_folder use_full_size img st =
     bnd (call (Plot_thresh_scores model img) (plot_thresh_scores env model img use_full_size))
       (\<lambda>(threshold, score).
     let st1 = list_append thresholds_addr (PFloat threshold) st;
         st2 = list_append scores_addr (PList scores_addr) st1 in
     bnd (case log_folder of
            None \<Rightarrow> ret ()
          | Some folder \<Rightarrow> call (Save_global_pred img) (np_save_global_pred env folder img))
       (\<lambda>_. ret st2))"

fun validate_loop ::
  "('c, 'mt) train_env \<Rightarrow> nat \<Rightarrow> string option \<Rightarrow> bool \<Rightarrow> string list \<Rightarrow> store \<Rightarrow> ('c tevent, store) run" where
  "validate_loop env model log_folder use_full_size [] st tr = (tr, Inr st)"
| "validate_loop env model log_folder use_full_size (img # imgs) st tr =
     (case validate_image env model log_folder use_full_size img st tr of
        (tr', Inl e) \<Rightarrow> (tr', Inl e)
      | (tr', Inr st') \<Rightarrow> validate_loop env model log_folder use_full_size imgs st' tr')"

text \<open>
  \<^verbatim>\<open>validate\<close> returns the pair \<^verbatim>\<open>(scores, thresholds)\<close>: two references, given here
  with the store they point into.
\<close>

definition validate ::
  "('c, 'mt) train_env \<Rightarrow> nat \<Rightarrow> string list \<Rightarrow> string option \<Rightarrow> bool \<Rightarrow>
     ('c tevent, store \<times> pyval \<times> pyval) run" where
  "validate env model val_images log_folder use_full_size =
     bnd (call (Read_rles use_full_size) (read_rles env use_full_size))
       (\<lambda>_.
     bnd (validate_loop env model log_folder use_full_size val_images
            [scores_addr \<mapsto> [], thresholds_addr \<mapsto> []])
       (\<lambda>st. ret (st, PList scores_addr, PList thresholds_addr)))"

text \<open>\<^verbatim>\<open>history.dice.values[-1]\<close>\<close>

definition last_value :: "real list \<Rightarrow> ('ev, real) run" where
  "last_value xs = (if xs = [] then throw IndexError else ret (last xs))"

text \<open>
  \<^verbatim>\<open>np.mean\<close> and \<^verbatim>\<open>np.std\<close> over the reals; of an empty list numpy returns NaN
  (with a warning), which is \<open>None\<close> here.
\<close>

definition np_mean :: "real list \<Rightarrow> real option" where
  "np_mean xs = (if xs = [] then None else Some (sum_list xs / real (length xs)))"

definition np_std :: "real list \<Rightarrow> real option" where
  "np_std xs =
     (case np_mean xs of
        None \<Rightarrow> None
      | Some m \<Rightarrow> Some (sqrt (sum_list (map (\<lambda>x. (x - m)\<^sup>2) xs) / real (length xs))))"

text \<open>
  The body of the loop of \<^verbatim>\<open>k_fold\<close> for a selected fold (lines 156 to 186). It returns
  the list \<^verbatim>\<open>cvs\<close> and, when line 183 returns, the meter that \<^verbatim>\<open>k_fold\<close> returns.
\<close>

definition k_fold_fold ::
  "('c, 'mt) train_env \<Rightarrow> config \<Rightarrow> 'c row list \<Rightarrow> string option \<Rightarrow> nat \<Rightarrow> 'c \<Rightarrow> real list \<Rightarrow>
     ('c tevent, real list \<times> 'mt option) run" where
  "k_fold_fold env config df log_folder i fold' cvs =
     (let df_train = df_train_of df fold';
          df_val = df_val_of df fold' in
      bnd (train env config df_train df_val i log_folder)
        (\<lambda>(meter, history, model).
      bnd (last_value history)
        (\<lambda>final_dice.
      let cvs' = cvs @ [final_dice];
          val_images = val_images_of df_val in
      bnd (validate env model val_images log_folder False)
        (\<lambda>_.
      bnd (emit (Del_model model))
        (\<lambda>_.
      bnd (emit Empty_cache)
        (\<lambda>_.
      bnd (case log_folder of
             None \<Rightarrow> ret ()
           | Some folder \<Rightarrow>
               bnd (call (Save_pred_mask i) (np_save_pred_mask env folder i meter))
                 (\<lambda>_. call (History_to_csv i) (history_to_csv env folder i history)))
        (\<lambda>_.
      if log_folder = None \<or> length (selected_folds config) = 1 then ret (cvs', Some meter)
      else
        bnd (emit Del_meter)
          (\<lambda>_.
        bnd (emit Gc_collect)
          (\<lambda>_. ret (cvs', None))))))))))"

fun k_fold_loop ::
  "('c, 'mt) train_env \<Rightarrow> config \<Rightarrow> 'c row list \<Rightarrow> string option \<Rightarrow> (nat \<times> 'c) list \<Rightarrow> real list \<Rightarrow>
     ('c tevent, real list \<times> 'mt option) run" where
  "k_fold_loop env config df log_folder [] cvs tr = (tr, Inr (cvs, None))"
| "k_fold_loop env config df log_folder ((i, fold') # rest) cvs tr =
     (if int i \<in> set (selected_folds config) then
        (case k_fold_fold env config df log_folder i fold' cvs tr of
           (tr', Inl e) \<Rightarrow> (tr', Inl e)
         | (tr', Inr (cvs', Some meter)) \<Rightarrow> (tr', Inr (cvs', Some meter))
         | (tr', Inr (cvs', None)) \<Rightarrow> k_fold_loop env config df log_folder rest cvs' tr')
      else k_fold_loop env config df log_folder rest cvs tr)"

text \<open>
  \<^verbatim>\<open>k_fold\<close> returns the meter of line 183, or \<open>None\<close> after the print of line 188. The
  list \<^verbatim>\<open>cvs\<close> is local to the function; the model returns its final value too, so that
  theorems can speak about it. Of the prints of the two modules only the one of line 188 is an
  event of the trace; the others show values and change nothing.
\<close>

definition k_fold ::
  "('c, 'mt) train_env \<Rightarrow> config \<Rightarrow> 'c row list \<Rightarrow> string option \<Rightarrow>
     ('c tevent, real list \<times> 'mt option) run" where
  "k_fold env config df log_folder =
     (let folds = unique (map cv df) in
      bnd (k_fold_loop env config df log_folder (enumerate 0 folds) [])
        (\<lambda>(cvs, returned).
           case returned of
             Some meter \<Rightarrow> ret (cvs, Some meter)
           | None \<Rightarrow>
               bnd (emit (Print_average (np_mean cvs) (np_std cvs)))
                 (\<lambda>_. ret (cvs, None))))"

section \<open>Inference over the folds: \<^verbatim>\<open>k_fold_inf\<close>\<close>

definition k_fold_inf_fold ::
  "('p, 'b, 'g) inf_env \<Rightarrow> 'c row list \<Rightarrow> string option \<Rightarrow> bool \<Rightarrow> real option \<Rightarrow> bool \<Rightarrow> bool \<Rightarrow>
     nat \<Rightarrow> 'c \<Rightarrow> real list \<Rightarrow> (ievent, real list) run" where
  "k_fold_inf_fold env df log_folder use_full_size global_threshold use_tta save i fold' scores =
     (let df_val = df_val_of df fold';
          val_images = val_images_of df_val in
      bnd (call (Define_model_inf i) (define_model_inf env i))
        (\<lambda>_.
      let model = i in
      bnd (case log_folder of
             None \<Rightarrow> throw TypeError
           | Some folder \<Rightarrow> call (Load_model_weights model) (load_model_weights env model folder i))
        (\<lambda>_.
      bnd (validate_inf env model val_images log_folder use_full_size global_threshold use_tta save)
        (\<lambda>new_scores. ret (scores @ new_scores)))))"

fun k_fold_inf_loop ::
  "('p, 'b, 'g) inf_env \<Rightarrow> config \<Rightarrow> 'c row list \<Rightarrow> string option \<Rightarrow> bool \<Rightarrow> real option \<Rightarrow> bool \<Rightarrow>
     bool \<Rightarrow> (nat \<times> 'c) list \<Rightarrow> real list \<Rightarrow> (ievent, real list) run" where
  "k_fold_inf_loop env config df log_folder use_full_size global_threshold use_tta save [] scores tr =
     (tr, Inr scores)"
| "k_fold_inf_loop env config df log_folder use_full_size global_threshold use_tta save
     ((i, fold') # rest) scores tr =
     (if int i \<in> set (selected_folds config) then
        (case k_fold_inf_fold env df log_folder use_full_size global_threshold use_tta save i fold'
                scores tr of
           (tr', Inl e) \<Rightarrow> (tr', Inl e)
         | (tr', Inr scores') \<Rightarrow>
             k_fold_inf_loop env config df log_folder use_full_size global_threshold use_tta save
               rest scores' tr')
      else
        k_fold_inf_loop env config df log_folder use_full_size global_threshold use_tta save
          rest scores tr)"

definition k_fold_inf ::
  "('p, 'b, 'g) inf_env \<Rightarrow> config \<Rightarrow> 'c row list \<Rightarrow> string option \<Rightarrow> bool \<Rightarrow> real option \<Rightarrow> bool \<Rightarrow>
     bool \<Rightarrow> (ievent, real list) run" where
  "k_fold_inf env config df log_folder use_full_size global_threshold use_tta save =
     k_fold_inf_loop env config df log_folder use_full_size global_threshold use_tta save
       (enumerate 0 (unique (map cv df))) []"

section \<open>Observations on traces\<close>

subsection \<open>Properties of computations used in the proofs\<close>

text \<open>
  \<open>adds P m\<close>: whatever the trace before, \<open>m\<close> only puts entries in front of it, and each
  new entry satisfies \<open>P\<close>. \<open>fails_last m\<close>: the entries that \<open>m\<close> adds raised nothing,
  except that the newest one raised the error \<open>m\<close> ends with, when it ends with one.
  \<open>propagates (tr, r)\<close> says the same of a whole run: an entry of the trace that raised an
  error is the newest entry, the error is the outcome of the run and no older entry raised
  anything; and a run that ends with an error has a newest entry that raised it.
\<close>

definition adds :: "('ev entry \<Rightarrow> bool) \<Rightarrow> ('ev, 'a) run \<Rightarrow> bool" where
  "adds P m \<longleftrightarrow> (\<forall>tr. \<exists>new. fst (m tr) = new @ tr \<and> list_all P new)"

definition clean :: "'ev entry list \<Rightarrow> bool" where
  "clean tr \<longleftrightarrow> list_all (\<lambda>e. raised e = None) tr"

definition fails_last :: "('ev, 'a) run \<Rightarrow> bool" where
  "fails_last m \<longleftrightarrow>
     (\<forall>tr. \<exists>new. fst (m tr) = new @ tr \<and>
        (case snd (m tr) of
           Inr x \<Rightarrow> clean new
         | Inl err \<Rightarrow> \<exists>f rest. new = f # rest \<and> raised f = Some err \<and> clean rest))"

definition propagates :: "'ev entry list \<times> (error + 'a) \<Rightarrow> bool" where
  "propagates run \<longleftrightarrow>
     (case run of (tr, r) \<Rightarrow>
        (\<forall>e \<in> set tr. \<forall>err. raised e = Some err \<longrightarrow>
           r = Inl err \<and> (\<exists>rest. tr = e # rest \<and> (\<forall>e' \<in> set rest. raised e' = None))) \<and>
        (\<forall>err. r = Inl err \<longrightarrow> (\<exists>e rest. tr = e # rest \<and> raised e = Some err)))"

text \<open>
  The calls that \<^verbatim>\<open>validate_inf\<close> makes for the model \<open>model\<close> with
  \<^verbatim>\<open>use_full_size = full\<close>; \<open>ifold_of\<close> is the model (the fold number) that a call of the
  inference side works with, and \<open>evaluated_folds\<close> lists the folds for which
  \<^verbatim>\<open>k_fold_inf\<close> built a model, in the order of the run.
\<close>

fun validate_inf_event :: "nat \<Rightarrow> bool \<Rightarrow> ievent \<Rightarrow> bool" where
  "validate_inf_event model full (Define_model_inf i) = False"
| "validate_inf_event model full (Load_model_weights i) = False"
| "validate_inf_event model full (Tweak_threshold img) = (\<not> full)"
| "validate_inf_event model full (Predict_entire_mask m img) = (m = model \<and> full)"
| "validate_inf_event model full (Predict_entire_mask_downscaled m img) = (m = model \<and> \<not> full)"
| "validate_inf_event model full (Threshold_resize_torch img t) = (\<not> full)"
| "validate_inf_event model full (Threshold_gt img t) = full"
| "validate_inf_event model full _ = True"


fun define_fold :: "ievent \<Rightarrow> nat list" where
  "define_fold (Define_model_inf i) = [i]"
| "define_fold _ = []"

definition evaluated_folds :: "ievent entry list \<Rightarrow> nat list" where
  "evaluated_folds tr = concat (map define_fold (events tr))"

text \<open>
  \<open>binarised_score env model use_tta t img\<close> is the dice score of the full-size prediction
  of \<open>img\<close> binarised by \<^verbatim>\<open>global_pred > t\<close> against the ground truth of \<open>img\<close>, when the
  predictor, the shape lookup, the decoder and the scorer all return.
\<close>

definition binarised_score ::
  "('p, 'b, 'g) inf_env \<Rightarrow> nat \<Rightarrow> bool \<Rightarrow> real \<Rightarrow> string \<Rightarrow> real option" where
  "binarised_score env model use_tta t img =
     (case predict_entire_mask env model img use_tta of
        Inl e \<Rightarrow> None
      | Inr pred \<Rightarrow>
          (case lookup_shape env img of
             Inl e \<Rightarrow> None
           | Inr shape \<Rightarrow>
               (case enc2mask env img shape of
                  Inl e \<Rightarrow> None
                | Inr truth \<Rightarrow>
                    (case dice_scores_img env (threshold_gt env pred t) truth of
                       Inl e \<Rightarrow> None
                     | Inr score \<Rightarrow> Some score))))"

abbreviation every :: "('ev \<Rightarrow> bool) \<Rightarrow> 'ev entry \<Rightarrow> bool" where
  "every P e \<equiv> list_all P (attempted e)"

subsection \<open>Observations on a training run\<close>

text \<open>
  \<open>trained_folds\<close> lists the folds for which \<^verbatim>\<open>fit\<close> was called, in the order of the
  run; \<open>reports\<close> lists the (mean, std) pairs printed by line 188; \<open>tfold_of\<close> is the fold
  number that a call of the training side belongs to.
\<close>

fun fit_fold :: "'c tevent \<Rightarrow> nat list" where
  "fit_fold (Fit i df_train df_val) = [i]"
| "fit_fold _ = []"

definition trained_folds :: "'c tevent entry list \<Rightarrow> nat list" where
  "trained_folds tr = concat (map fit_fold (events tr))"

fun printed :: "'c tevent \<Rightarrow> (real option \<times> real option) list" where
  "printed (Print_average m s) = [(m, s)]"
| "printed _ = []"

definition reports :: "'c tevent entry list \<Rightarrow> (real option \<times> real option) list" where
  "reports tr = concat (map printed (events tr))"

fun tfold_of :: "'c tevent \<Rightarrow> nat option" where
  "tfold_of (Define_model i) = Some i"
| "tfold_of (Fit i df_train df_val) = Some i"
| "tfold_of (Save_model_weights i name) = Some i"
| "tfold_of (Save_as_jit i name) = Some i"
| "tfold_of (Plot_thresh_scores i img) = Some i"
| "tfold_of (Del_model i) = Some i"
| "tfold_of (Save_pred_mask i) = Some i"
| "tfold_of (History_to_csv i) = Some i"
| "tfold_of _ = None"

text \<open>
  The calls that \<^verbatim>\<open>validate\<close> makes for a model, and the calls that the loop body of
  \<^verbatim>\<open>k_fold\<close> makes for fold number \<open>i\<close> with fold value \<open>fold'\<close>.
\<close>

fun validate_event :: "nat \<Rightarrow> 'c tevent \<Rightarrow> bool" where
  "validate_event model (Read_rles full) = True"
| "validate_event model (Plot_thresh_scores m img) = (m = model)"
| "validate_event model (Save_global_pred img) = True"
| "validate_event model _ = False"

fun fold_event :: "'c row list \<Rightarrow> nat \<Rightarrow> 'c \<Rightarrow> 'c tevent \<Rightarrow> bool" where
  "fold_event df i fold' (Fit j df_train df_val) =
     (j = i \<and> df_train = df_train_of df fold' \<and> df_val = df_val_of df fold')"
| "fold_event df i fold' (Print_average m s) = False"
| "fold_event df i fold' ev = (tfold_of ev = None \<or> tfold_of ev = Some i)"

text \<open>
  The models that occupy the accelerator at a moment of the run: a model is live from the
  moment \<^verbatim>\<open>define_model\<close> has returned it until \<^verbatim>\<open>del model\<close>, and after that it
  stays in the cache until \<^verbatim>\<open>torch.cuda.empty_cache()\<close>. \<open>resident\<close> lists both kinds.
  \<open>one_model_at_a_time\<close> says that at every moment of a trace at most one model is
  resident, and that none is when \<^verbatim>\<open>define_model\<close> is called.
\<close>

fun model_step :: "'c tevent entry \<Rightarrow> nat list \<times> nat list \<Rightarrow> nat list \<times> nat list" where
  "model_step (Done (Define_model m)) (live, cached) = (m # live, cached)"
| "model_step (Done (Del_model m)) (live, cached) = (removeAll m live, m # cached)"
| "model_step (Done Empty_cache) (live, cached) = (live, [])"
| "model_step e s = s"

fun model_state :: "'c tevent entry list \<Rightarrow> nat list \<times> nat list" where
  "model_state [] = ([], [])"
| "model_state (e # tr) = model_step e (model_state tr)"

definition resident :: "'c tevent entry list \<Rightarrow> nat list" where
  "resident tr = fst (model_state tr) @ snd (model_state tr)"

fun one_model_at_a_time :: "'c tevent entry list \<Rightarrow> bool" where
  "one_model_at_a_time [] = True"
| "one_model_at_a_time (e # tr) =
     (one_model_at_a_time tr \<and> length (resident (e # tr)) \<le> 1 \<and>
      (\<forall>m. Define_model m \<in> set (attempted e) \<longrightarrow> resident tr = []))"

definition loop_event :: "config \<Rightarrow> 'c row list \<Rightarrow> (nat \<times> 'c) list \<Rightarrow> 'c tevent \<Rightarrow> bool" where
  "loop_event config df efs ev \<longleftrightarrow>
     (\<exists>(i, fold') \<in> set efs. int i \<in> set (selected_folds config) \<and> fold_event df i fold' ev)"

subsection \<open>The folds a run of k_fold processes\<close>

text \<open>
  \<open>returns_early\<close> is the condition of line 182. \<open>selected\<close> keeps the pairs of
  \<^verbatim>\<open>enumerate(folds)\<close> whose index is in \<^verbatim>\<open>config.selected_folds\<close>, and \<open>processed\<close>
  is the part of them that a run without errors goes through. \<open>final_dice\<close> is
  \<^verbatim>\<open>history.dice.values[-1]\<close> of the training of a fold, when the training returns and
  the history is not empty.
\<close>

definition returns_early :: "config \<Rightarrow> string option \<Rightarrow> bool" where
  "returns_early config log_folder \<longleftrightarrow> log_folder = None \<or> length (selected_folds config) = 1"

definition selected :: "config \<Rightarrow> (nat \<times> 'c) list \<Rightarrow> (nat \<times> 'c) list" where
  "selected config efs = filter (\<lambda>(i, fold'). int i \<in> set (selected_folds config)) efs"

definition processed :: "config \<Rightarrow> string option \<Rightarrow> (nat \<times> 'c) list \<Rightarrow> (nat \<times> 'c) list" where
  "processed config log_folder efs =
     (if returns_early config log_folder then take 1 (selected config efs) else selected config efs)"

definition final_dice :: "('c, 'mt) train_env \<Rightarrow> 'c row list \<Rightarrow> nat \<times> 'c \<Rightarrow> real option" where
  "final_dice env df p =
     (case p of (i, fold') \<Rightarrow>
        (case fit env i (df_train_of df fold') (df_val_of df fold') of
           Inl e \<Rightarrow> None
         | Inr (meter, history) \<Rightarrow> if history = [] then None else Some (last history)))"

text \<open>
  \<open>validated\<close> lists the pairs (model, image) for which \<^verbatim>\<open>validate\<close> ran the prediction
  and the threshold search, in the order of the run; \<open>fold_images\<close> is what that list is for
  one fold, and \<open>fold_meter\<close> the meter that the training of a fold returns.
\<close>

fun plot_img :: "'c tevent \<Rightarrow> (nat \<times> string) list" where
  "plot_img (Plot_thresh_scores i img) = [(i, img)]"
| "plot_img _ = []"

definition validated :: "'c tevent entry list \<Rightarrow> (nat \<times> string) list" where
  "validated tr = concat (map plot_img (events tr))"

definition fold_images :: "'c row list \<Rightarrow> nat \<times> 'c \<Rightarrow> (nat \<times> string) list" where
  "fold_images df p = (case p of (i, fold') \<Rightarrow> map (Pair i) (val_images_of (df_val_of df fold')))"

definition fold_meter :: "('c, 'mt) train_env \<Rightarrow> 'c row list \<Rightarrow> nat \<times> 'c \<Rightarrow> 'mt option" where
  "fold_meter env df p =
     (case p of (i, fold') \<Rightarrow>
        (case fit env i (df_train_of df fold') (df_val_of df fold') of
           Inl e \<Rightarrow> None
         | Inr (meter, history) \<Rightarrow> Some meter))"

text \<open>
  \<open>always_returns env\<close>: every collaborator of the training side returns, whatever its
  arguments, and every training history has at least one epoch.
\<close>

definition always_returns :: "('c, 'mt) train_env \<Rightarrow> bool" where
  "always_returns env \<longleftrightarrow>
     (\<forall>i. define_model env i = Inr ()) \<and>
     (\<forall>i df_train df_val. \<exists>meter history.
        fit env i df_train df_val = Inr (meter, history) \<and> history \<noteq> []) \<and>
     (\<forall>model name folder. save_model_weights env model name folder = Inr ()) \<and>
     (\<forall>model folder name. save_as_jit env model folder name = Inr ()) \<and>
     (\<forall>full. read_rles env full = Inr ()) \<and>
     (\<forall>model img full. \<exists>threshold score. plot_thresh_scores env model img full = Inr (threshold, score)) \<and>
     (\<forall>folder img. np_save_global_pred env folder img = Inr ()) \<and>
     (\<forall>folder i meter. np_save_pred_mask env folder i meter = Inr ()) \<and>
     (\<forall>folder i history. history_to_csv env folder i history = Inr ())"


section \<open>Concrete inputs\<close>

text \<open>
  A dataframe with the two fold values 7 and 9 (fold 0 holds the tiles of image \<open>a\<close>,
  fold 1 those of image \<open>b\<close>), collaborators that always return, and collaborators that
  raise: \<^verbatim>\<open>fit\<close> in fold 1, \<^verbatim>\<open>plot_thresh_scores\<close> and the shape lookup at image \<open>b\<close>.
\<close>

definition demo_df :: "nat row list" where
  "demo_df = [\<lparr>cv = 7, tile_name = ''a_0''\<rparr>, \<lparr>cv = 9, tile_name = ''b_0''\<rparr>,
              \<lparr>cv = 7, tile_name = ''a_1''\<rparr>]"

definition demo_config :: "int list \<Rightarrow> config" where
  "demo_config sel =
     \<lparr>selected_folds = sel, save_weights = False, decoder = ''Unet'', encoder = ''resnet34''\<rparr>"

definition demo_train_env :: "(nat, nat) train_env" where
  "demo_train_env =
     \<lparr>define_model = (\<lambda>i. Inr ()),
      fit = (\<lambda>i df_train df_val. Inr (i, [1 / 2, 1 + 2 * real i])),
      save_model_weights = (\<lambda>model name folder. Inr ()),
      save_as_jit = (\<lambda>model folder name. Inr ()),
      read_rles = (\<lambda>full. Inr ()),
      plot_thresh_scores = (\<lambda>model img full. Inr (1 / 2, 9 / 10)),
      np_save_global_pred = (\<lambda>folder img. Inr ()),
      np_save_pred_mask = (\<lambda>folder i meter. Inr ()),
      history_to_csv = (\<lambda>folder i history. Inr ())\<rparr>"

definition failing_train_env :: "(nat, nat) train_env" where
  "failing_train_env =
     demo_train_env\<lparr>fit := (\<lambda>i df_train df_val.
        if i = 1 then Inl (Raised ''out of memory'') else Inr (i, [1 / 2, 1 + 2 * real i])),
       plot_thresh_scores := (\<lambda>model img full.
        if img = ''b'' then Inl (Raised ''no such file'') else Inr (1 / 2, 9 / 10))\<rparr>"

definition demo_inf_env :: "(unit, unit, unit) inf_env" where
  "demo_inf_env =
     \<lparr>read_csv = (\<lambda>t. Inr ()),
      predict_entire_mask = (\<lambda>model img tta. Inr ()),
      predict_entire_mask_downscaled = (\<lambda>model img tta. Inr ()),
      tweak_threshold = (\<lambda>img pred. if img = ''a'' then Inr (3 / 10, 9 / 10) else Inr (5 / 10, 8 / 10)),
      lookup_shape = (\<lambda>img. Inr (1, 1)),
      enc2mask = (\<lambda>img shape. Inr ()),
      np_save_pred = (\<lambda>folder img pred. Inr ()),
      threshold_resize_torch = (\<lambda>pred shape t. Inr ()),
      threshold_gt = (\<lambda>pred t. ()),
      dice_scores_img = (\<lambda>binary truth. Inr 1),
      define_model_inf = (\<lambda>i. Inr ()),
      load_model_weights = (\<lambda>model folder i. Inr ())\<rparr>"

definition failing_inf_env :: "(unit, unit, unit) inf_env" where
  "failing_inf_env =
     demo_inf_env\<lparr>lookup_shape := (\<lambda>img. if img = ''b'' then Inl IndexError else Inr (1, 1))\<rparr>"

text \<open>
  Collaborators with masks that tell thresholds apart: the prediction of every image is
  \<open>[0.5, 0.95]\<close>, the ground truth is all ones, and the score is 1 when the binarised mask
  equals the ground truth and 0.5 otherwise.
\<close>

definition mask_inf_env :: "(real list, bool list, bool list) inf_env" where
  "mask_inf_env =
     \<lparr>read_csv = (\<lambda>t. Inr ()),
      predict_entire_mask = (\<lambda>model img tta. Inr [1 / 2, 19 / 20]),
      predict_entire_mask_downscaled = (\<lambda>model img tta. Inr [1 / 2, 19 / 20]),
      tweak_threshold = (\<lambda>img pred. Inr (7 / 10, 1 / 2)),
      lookup_shape = (\<lambda>img. Inr (1, 2)),
      enc2mask = (\<lambda>img shape. Inr [True, True]),
      np_save_pred = (\<lambda>folder img pred. Inr ()),
      threshold_resize_torch = (\<lambda>pred shape t. Inr (map (\<lambda>x. t < x) pred)),
      threshold_gt = (\<lambda>pred t. map (\<lambda>x. t < x) pred),
      dice_scores_img = (\<lambda>binary truth. Inr (if binary = truth then 1 else 1 / 2)),
      define_model_inf = (\<lambda>i. Inr ()),
      load_model_weights = (\<lambda>model folder i. Inr ())\<rparr>"

text \<open>
  The trace of \<^verbatim>\<open>k_fold\<close> on the concrete dataframe with both folds selected and a log
  folder, cut at the construction of the second model.
\<close>

definition demo_fold_0 :: "nat tevent entry list" where
  "demo_fold_0 =
     [Done Seed_everything, Done Gc_collect, Done Del_meter, Done (History_to_csv 0),
      Done (Save_pred_mask 0), Done Empty_cache, Done (Del_model 0), Done (Save_global_pred ''a''),
      Done (Plot_thresh_scores 0 ''a''), Done (Read_rles False),
      Done (Fit 0 [\<lparr>cv = 9, tile_name = ''b_0''\<rparr>]
              [\<lparr>cv = 7, tile_name = ''a_0''\<rparr>, \<lparr>cv = 7, tile_name = ''a_1''\<rparr>]),
      Done (Define_model 0), Done Seed_everything]"

definition demo_fold_1 :: "nat tevent entry list" where
  "demo_fold_1 =
     [Done (Print_average (Some 2) (Some 1)), Done Gc_collect, Done Del_meter, Done (History_to_csv 1),
      Done (Save_pred_mask 1), Done Empty_cache, Done (Del_model 1), Done (Save_global_pred ''b''),
      Done (Plot_thresh_scores 1 ''b''), Done (Read_rles False),
      Done (Fit 1 [\<lparr>cv = 7, tile_name = ''a_0''\<rparr>, \<lparr>cv = 7, tile_name = ''a_1''\<rparr>]
              [\<lparr>cv = 9, tile_name = ''b_0''\<rparr>])]"

section \<open>Lemmas about computations\<close>

lemma adds_ret: "adds P (ret x)"
  by (simp add: adds_def ret_def)

lemma adds_throw: "P (Thrown e) \<Longrightarrow> adds P (throw e)"
  by (simp add: adds_def throw_def)

lemma adds_emit: "P (Done ev) \<Longrightarrow> adds P (emit ev)"
  by (simp add: adds_def emit_def)

lemma adds_call: "P (Done ev) \<Longrightarrow> (\<And>e. P (Failed ev e)) \<Longrightarrow> adds P (call ev r)"
  by (cases r) (simp_all add: adds_def call_def)

lemma adds_bnd:
  assumes "adds P m" and "\<And>x. adds P (f x)"
  shows "adds P (bnd m f)"
  unfolding adds_def
proof
  fix tr
  from assms(1) obtain new1 where m: "fst (m tr) = new1 @ tr" "list_all P new1"
    unfolding adds_def by blast
  show "\<exists>new. fst (bnd m f tr) = new @ tr \<and> list_all P new"
  proof (cases "snd (m tr)")
    case (Inl e)
    then have "bnd m f tr = (new1 @ tr, Inl e)"
      using m(1) by (cases "m tr") (simp add: bnd_def)
    then show ?thesis using m(2) by simp
  next
    case (Inr x)
    then have b: "bnd m f tr = f x (new1 @ tr)"
      using m(1) by (cases "m tr") (simp add: bnd_def)
    from assms(2)[of x] obtain new2 where f: "fst (f x (new1 @ tr)) = new2 @ new1 @ tr"
      "list_all P new2"
      unfolding adds_def by blast
    show ?thesis
      by (rule exI[of _ "new2 @ new1"]) (use b f m(2) in simp)
  qed
qed

lemmas adds_intros = adds_ret adds_throw adds_emit adds_call adds_bnd

lemma fails_last_ret: "fails_last (ret x)"
  by (simp add: fails_last_def ret_def clean_def)

lemma fails_last_throw: "fails_last (throw e)"
  by (simp add: fails_last_def throw_def clean_def)

lemma fails_last_emit: "fails_last (emit ev)"
  by (simp add: fails_last_def emit_def clean_def)

lemma fails_last_call: "fails_last (call ev r)"
  by (cases r) (simp_all add: fails_last_def call_def clean_def)

lemma fails_last_bnd:
  assumes "fails_last m" and "\<And>x. fails_last (f x)"
  shows "fails_last (bnd m f)"
  unfolding fails_last_def
proof
  fix tr
  from assms(1) obtain new1 where m: "fst (m tr) = new1 @ tr"
    "case snd (m tr) of Inr x \<Rightarrow> clean new1
       | Inl err \<Rightarrow> \<exists>f rest. new1 = f # rest \<and> raised f = Some err \<and> clean rest"
    unfolding fails_last_def by blast
  show "\<exists>new. fst (bnd m f tr) = new @ tr \<and>
          (case snd (bnd m f tr) of Inr x \<Rightarrow> clean new
           | Inl err \<Rightarrow> \<exists>f rest. new = f # rest \<and> raised f = Some err \<and> clean rest)"
  proof (cases "snd (m tr)")
    case (Inl e)
    then have "bnd m f tr = (new1 @ tr, Inl e)"
      using m(1) by (cases "m tr") (simp add: bnd_def)
    then show ?thesis using m(2) Inl by simp
  next
    case (Inr x)
    then have b: "bnd m f tr = f x (new1 @ tr)"
      using m(1) by (cases "m tr") (simp add: bnd_def)
    from Inr m(2) have c1: "clean new1" by simp
    from assms(2)[of x] obtain new2 where f: "fst (f x (new1 @ tr)) = new2 @ new1 @ tr"
      "case snd (f x (new1 @ tr)) of Inr x \<Rightarrow> clean new2
       | Inl err \<Rightarrow> \<exists>f rest. new2 = f # rest \<and> raised f = Some err \<and> clean rest"
      unfolding fails_last_def by blast
    show ?thesis
    proof (rule exI[of _ "new2 @ new1"], cases "snd (f x (new1 @ tr))")
      case (Inl e)
      with f(2) obtain g rest where "new2 = g # rest" "raised g = Some e" "clean rest" by auto
      with Inl b f(1) c1 show "fst (bnd m f tr) = (new2 @ new1) @ tr \<and>
          (case snd (bnd m f tr) of Inr x \<Rightarrow> clean (new2 @ new1)
           | Inl err \<Rightarrow> \<exists>f rest. new2 @ new1 = f # rest \<and> raised f = Some err \<and> clean rest)"
        by (simp add: clean_def)
    next
      case (Inr y)
      with f b c1 show "fst (bnd m f tr) = (new2 @ new1) @ tr \<and>
          (case snd (bnd m f tr) of Inr x \<Rightarrow> clean (new2 @ new1)
           | Inl err \<Rightarrow> \<exists>f rest. new2 @ new1 = f # rest \<and> raised f = Some err \<and> clean rest)"
        by (simp add: clean_def)
    qed
  qed
qed

lemmas fails_last_intros = fails_last_ret fails_last_throw fails_last_emit fails_last_call fails_last_bnd

section \<open>Lemmas about the inference side\<close>

lemma validate_inf_loop_Cons:
  "validate_inf_loop env model lf full tta save (img # imgs) gt scores =
     bnd (validate_inf_image env model lf full tta save img gt)
       (\<lambda>(gt', score). validate_inf_loop env model lf full tta save imgs gt' (scores @ [score]))"
  by (rule ext) (simp add: bnd_def split: prod.splits sum.splits)

lemma validate_inf_loop_Nil:
  "validate_inf_loop env model lf full tta save [] gt scores = ret scores"
  by (rule ext) (simp add: ret_def)

lemma fails_last_predict_and_tune: "fails_last (predict_and_tune env model full tta img)"
  unfolding predict_and_tune_def
  by (auto intro!: fails_last_intros split: prod.splits)

lemma fails_last_validate_inf_image: "fails_last (validate_inf_image env model lf full tta save img gt)"
  unfolding validate_inf_image_def Let_def
  by (auto intro!: fails_last_intros fails_last_predict_and_tune split: prod.splits option.splits)

lemma fails_last_validate_inf_loop:
  "fails_last (validate_inf_loop env model lf full tta save imgs gt scores)"
proof (induction imgs arbitrary: gt scores)
  case Nil
  show ?case by (simp add: validate_inf_loop_Nil fails_last_ret)
next
  case (Cons img imgs)
  show ?case
    unfolding validate_inf_loop_Cons
    by (auto intro!: fails_last_bnd fails_last_validate_inf_image Cons.IH split: prod.splits)
qed

lemma fails_last_validate_inf:
  "fails_last (validate_inf env model imgs lf full gt tta save)"
  unfolding validate_inf_def
  by (intro fails_last_bnd fails_last_call fails_last_validate_inf_loop)

lemma bnd_ret: "bnd (ret x) f = f x"
  by (rule ext) (simp add: bnd_def ret_def)

lemma bnd_assoc: "bnd (bnd m f) g = bnd m (\<lambda>x. bnd (f x) g)"
  by (rule ext) (simp add: bnd_def split: prod.splits sum.splits)

lemma adds_weaken: "adds P m \<Longrightarrow> (\<And>e. P e \<Longrightarrow> P' e) \<Longrightarrow> adds P' m"
  unfolding adds_def by (metis (mono_tags, lifting) list.pred_mono_strong)

lemma adds_run:
  assumes "adds P m" and "m tr = (tr', r)"
  shows "\<exists>new. tr' = new @ tr \<and> list_all P new"
  using assms unfolding adds_def by (metis fst_conv)

lemma adds_predict_and_tune:
  "adds (every (validate_inf_event model full)) (predict_and_tune env model full tta img)"
  unfolding predict_and_tune_def
  by (auto intro!: adds_intros)

lemma adds_validate_inf_image:
  "adds (every (validate_inf_event model full)) (validate_inf_image env model lf full tta save img gt)"
  unfolding validate_inf_image_def Let_def
  by (auto intro!: adds_intros adds_predict_and_tune split: prod.splits option.splits)

lemma adds_validate_inf_loop:
  "adds (every (validate_inf_event model full)) (validate_inf_loop env model lf full tta save imgs gt scores)"
proof (induction imgs arbitrary: gt scores)
  case Nil
  show ?case by (simp add: validate_inf_loop_Nil adds_ret)
next
  case (Cons img imgs)
  show ?case
    unfolding validate_inf_loop_Cons
    by (auto intro!: adds_bnd adds_validate_inf_image Cons.IH split: prod.splits)
qed

lemma adds_validate_inf:
  "adds (every (validate_inf_event model full)) (validate_inf env model imgs lf full gt tta save)"
  unfolding validate_inf_def
  by (auto intro!: adds_intros adds_validate_inf_loop)

lemma events_Cons: "events (e # tr) = events tr @ attempted e"
  by (simp add: events_def)

lemma events_append: "events (new @ tr) = events tr @ events new"
  by (simp add: events_def)

lemma events_Nil: "events [] = []"
  by (simp add: events_def)

lemma not_in_events: "list_all (\<lambda>e. x \<notin> set (attempted e)) tr \<Longrightarrow> x \<notin> set (events tr)"
  by (induction tr) (auto simp: events_Cons events_Nil)

lemma thresholds_used_Cons:
  "thresholds_used (e # tr) = thresholds_used tr @ concat (map binarised_at (attempted e))"
  by (simp add: thresholds_used_def events_Cons)

lemma validate_inf_image_threshold:
  assumes "validate_inf_image env model lf full tta save img gt tr = (tr', Inr (gt', sc))"
  shows "\<exists>t. gt' = Some t \<and> thresholds_used tr' = thresholds_used tr @ [(img, t)] \<and>
     (case gt of
        Some g \<Rightarrow> t = g
      | None \<Rightarrow>
          if full then t = 4 / 10
          else \<exists>p s. predict_entire_mask_downscaled env model img tta = Inr p \<and>
                 tweak_threshold env img p = Inr (t, s))"
  using assms
  unfolding validate_inf_image_def predict_and_tune_def Let_def
  by (auto simp: bnd_def call_def ret_def emit_def throw_def thresholds_used_Cons
      split: if_splits sum.splits prod.splits option.splits)

lemma thresholds_used_append:
  "thresholds_used (new @ tr) = thresholds_used tr @ thresholds_used new"
  by (simp add: thresholds_used_def events_append)

lemma validate_inf_loop_fixed_threshold:
  assumes "validate_inf_loop env model lf full tta save imgs (Some g) scores tr = (tr', Inr s)"
  shows "thresholds_used tr' = thresholds_used tr @ map (\<lambda>img. (img, g)) imgs"
  using assms
proof (induction imgs arbitrary: scores tr)
  case Nil
  then show ?case by simp
next
  case (Cons img imgs)
  from Cons.prems obtain tr1 gt1 sc where
    img: "validate_inf_image env model lf full tta save img (Some g) tr = (tr1, Inr (gt1, sc))" and
    rest: "validate_inf_loop env model lf full tta save imgs gt1 (scores @ [sc]) tr1 = (tr', Inr s)"
    by (auto split: prod.splits sum.splits)
  from validate_inf_image_threshold[OF img]
  have "gt1 = Some g" "thresholds_used tr1 = thresholds_used tr @ [(img, g)]" by auto
  with Cons.IH rest show ?case by simp
qed

lemma validate_inf_loop_full_threshold:
  assumes "validate_inf_loop env model lf True tta save imgs None scores tr = (tr', Inr s)"
  shows "thresholds_used tr' = thresholds_used tr @ map (\<lambda>img. (img, 4 / 10)) imgs"
proof (cases imgs)
  case Nil
  with assms show ?thesis by simp
next
  case (Cons img rest)
  from assms Cons obtain tr1 gt1 sc where
    img: "validate_inf_image env model lf True tta save img None tr = (tr1, Inr (gt1, sc))" and
    rest: "validate_inf_loop env model lf True tta save rest gt1 (scores @ [sc]) tr1 = (tr', Inr s)"
    by (auto split: prod.splits sum.splits)
  from validate_inf_image_threshold[OF img]
  have "gt1 = Some (4 / 10)" "thresholds_used tr1 = thresholds_used tr @ [(img, 4 / 10)]" by auto
  with validate_inf_loop_fixed_threshold rest Cons show ?thesis by fastforce
qed

lemma validate_inf_reads:
  assumes "validate_inf env model imgs lf full gt tta save tr = (tr', Inr s)"
  shows "validate_inf_loop env model lf full tta save imgs gt []
           (Done (Read_csv Rles_full) # Done (Read_csv (Rles full)) # Done (Read_csv Dataset_information) # tr)
         = (tr', Inr s)"
  using assms unfolding validate_inf_def
  by (auto simp: bnd_def call_def split: sum.splits prod.splits)

lemma validate_inf_full_threshold:
  assumes "validate_inf env model imgs lf True None tta save tr = (tr', Inr s)"
  shows "thresholds_used tr' = thresholds_used tr @ map (\<lambda>img. (img, 4 / 10)) imgs"
  using validate_inf_loop_full_threshold[OF validate_inf_reads[OF assms]]
  by (simp add: thresholds_used_Cons)

lemma validate_inf_fixed_threshold:
  assumes "validate_inf env model imgs lf full (Some g) tta save tr = (tr', Inr s)"
  shows "thresholds_used tr' = thresholds_used tr @ map (\<lambda>img. (img, g)) imgs"
  using validate_inf_loop_fixed_threshold[OF validate_inf_reads[OF assms]]
  by (simp add: thresholds_used_Cons)

lemma adds_validate_inf_image_full_value:
  "adds (every (\<lambda>ev. \<forall>p \<in> set (binarised_at ev). snd p = (case gt of None \<Rightarrow> 4 / 10 | Some g \<Rightarrow> g)))
     (validate_inf_image env model lf True tta save img gt)"
  unfolding validate_inf_image_def predict_and_tune_def Let_def
  by (auto simp: bnd_assoc bnd_ret intro!: adds_intros split: prod.splits option.splits)

lemma validate_inf_loop_full_value:
  assumes "gt = None \<or> gt = Some (4 / 10)"
  shows "adds (every (\<lambda>ev. \<forall>p \<in> set (binarised_at ev). snd p = 4 / 10))
     (validate_inf_loop env model lf True tta save imgs gt scores)"
  using assms
proof (induction imgs arbitrary: gt scores)
  case Nil
  show ?case by (simp add: validate_inf_loop_Nil adds_ret)
next
  case (Cons img imgs)
  let ?P = "every (\<lambda>ev. \<forall>p \<in> set (binarised_at ev). snd p = (4 / 10 :: real))"
  have step: "adds ?P (validate_inf_image env model lf True tta save img gt)"
    using adds_validate_inf_image_full_value[of gt env model lf tta save img] Cons.prems
    by auto
  show ?case
    unfolding adds_def
  proof
    fix tr
    from step obtain new1 where n1: "fst (validate_inf_image env model lf True tta save img gt tr) = new1 @ tr"
      "list_all ?P new1" unfolding adds_def by blast
    show "\<exists>new. fst (validate_inf_loop env model lf True tta save (img # imgs) gt scores tr) = new @ tr \<and> list_all ?P new"
    proof (cases "snd (validate_inf_image env model lf True tta save img gt tr)")
      case (Inl e)
      with n1 show ?thesis
        by (cases "validate_inf_image env model lf True tta save img gt tr") auto
    next
      case (Inr x)
      obtain gt1 sc where x: "x = (gt1, sc)" by (cases x)
      with Inr n1 have run: "validate_inf_image env model lf True tta save img gt tr = (new1 @ tr, Inr (gt1, sc))"
        by (cases "validate_inf_image env model lf True tta save img gt tr") auto
      from validate_inf_image_threshold[OF run] Cons.prems have "gt1 = Some (4 / 10)"
        by auto
      then have "adds ?P (validate_inf_loop env model lf True tta save imgs gt1 (scores @ [sc]))"
        by (intro Cons.IH) simp
      then obtain new2 where
        "fst (validate_inf_loop env model lf True tta save imgs gt1 (scores @ [sc]) (new1 @ tr)) = new2 @ new1 @ tr"
        "list_all ?P new2" unfolding adds_def by blast
      with run n1 show ?thesis
        by (intro exI[of _ "new2 @ new1"]) simp
    qed
  qed
qed

section \<open>Lemmas about the training side\<close>

lemma validate_loop_Cons:
  "validate_loop env model lf full (img # imgs) st =
     bnd (validate_image env model lf full img st) (\<lambda>st'. validate_loop env model lf full imgs st')"
  by (rule ext) (simp add: bnd_def split: prod.splits sum.splits)

lemma validate_loop_Nil: "validate_loop env model lf full [] st = ret st"
  by (rule ext) (simp add: ret_def)

lemma k_fold_loop_Nil: "k_fold_loop env config df lf [] cvs = ret (cvs, None)"
  by (rule ext) (simp add: ret_def)

lemma k_fold_loop_Cons:
  "k_fold_loop env config df lf ((i, fold') # rest) cvs =
     (if int i \<in> set (selected_folds config) then
        bnd (k_fold_fold env config df lf i fold' cvs)
          (\<lambda>(cvs', returned). case returned of
               Some meter \<Rightarrow> ret (cvs', Some meter)
             | None \<Rightarrow> k_fold_loop env config df lf rest cvs')
      else k_fold_loop env config df lf rest cvs)"
  by (rule ext) (simp add: bnd_def ret_def split: prod.splits sum.splits option.splits)

lemma fails_last_train: "fails_last (train env config df_train df_val i lf)"
  unfolding train_def Let_def
  by (auto intro!: fails_last_intros split: prod.splits option.splits)

lemma fails_last_validate_image: "fails_last (validate_image env model lf full img st)"
  unfolding validate_image_def Let_def
  by (auto intro!: fails_last_intros split: prod.splits option.splits)

lemma fails_last_validate_loop: "fails_last (validate_loop env model lf full imgs st)"
proof (induction imgs arbitrary: st)
  case Nil
  show ?case by (simp add: validate_loop_Nil fails_last_ret)
next
  case (Cons img imgs)
  show ?case
    unfolding validate_loop_Cons
    by (intro fails_last_bnd fails_last_validate_image Cons.IH)
qed

lemma fails_last_validate: "fails_last (validate env model imgs lf full)"
  unfolding validate_def
  by (intro fails_last_bnd fails_last_call fails_last_validate_loop fails_last_ret)

lemma fails_last_last_value: "fails_last (last_value xs)"
  unfolding last_value_def by (simp add: fails_last_intros)

lemma fails_last_k_fold_fold: "fails_last (k_fold_fold env config df lf i fold' cvs)"
  unfolding k_fold_fold_def Let_def
  by (auto intro!: fails_last_intros fails_last_train fails_last_validate fails_last_last_value
      split: prod.splits option.splits)

lemma fails_last_k_fold_loop: "fails_last (k_fold_loop env config df lf efs cvs)"
proof (induction efs arbitrary: cvs)
  case Nil
  show ?case by (simp add: k_fold_loop_Nil fails_last_ret)
next
  case (Cons ef efs)
  obtain i fold' where ef: "ef = (i, fold')" by (cases ef)
  show ?case
    unfolding ef k_fold_loop_Cons
    by (auto intro!: fails_last_bnd fails_last_k_fold_fold fails_last_ret Cons.IH
        split: prod.splits option.splits)
qed

lemma fails_last_k_fold: "fails_last (k_fold env config df lf)"
  unfolding k_fold_def Let_def
  by (auto intro!: fails_last_intros fails_last_k_fold_loop split: prod.splits option.splits)

lemma adds_validate_image:
  "adds (every (validate_event model)) (validate_image env model lf full img st)"
  unfolding validate_image_def Let_def
  by (auto intro!: adds_intros split: prod.splits option.splits)

lemma adds_validate_loop:
  "adds (every (validate_event model)) (validate_loop env model lf full imgs st)"
proof (induction imgs arbitrary: st)
  case Nil
  show ?case by (simp add: validate_loop_Nil adds_ret)
next
  case (Cons img imgs)
  show ?case
    unfolding validate_loop_Cons
    by (intro adds_bnd adds_validate_image Cons.IH)
qed

lemma adds_validate:
  "adds (every (validate_event model)) (validate env model imgs lf full)"
  unfolding validate_def
  by (auto intro!: adds_intros adds_validate_loop)

lemma validate_event_fold_event: "validate_event i ev \<Longrightarrow> fold_event df i fold' ev"
  by (cases ev) simp_all

lemma adds_train:
  "adds (every (fold_event df i fold'))
     (train env config (df_train_of df fold') (df_val_of df fold') i lf)"
  unfolding train_def Let_def
  by (auto intro!: adds_intros split: prod.splits option.splits)

lemma adds_k_fold_fold:
  "adds (every (fold_event df i fold')) (k_fold_fold env config df lf i fold' cvs)"
proof -
  have v: "adds (every (fold_event df i fold')) (validate env i imgs lf' full)" for imgs full lf'
    by (rule adds_weaken[OF adds_validate])
      (auto simp: list_all_iff intro: validate_event_fold_event)
  have t: "train env config (df_train_of df fold') (df_val_of df fold') i lf tr = (tr', Inr (meter, history, model))
     \<Longrightarrow> model = i" for tr tr' meter history model
    unfolding train_def Let_def
    by (auto simp: bnd_def call_def ret_def emit_def split: sum.splits prod.splits option.splits if_splits)
  show ?thesis
    unfolding adds_def
  proof
    fix tr
    obtain tr1 r1 where tr1: "train env config (df_train_of df fold') (df_val_of df fold') i lf tr = (tr1, r1)"
      by (cases "train env config (df_train_of df fold') (df_val_of df fold') i lf tr")
    from adds_run[OF adds_train tr1] obtain new1 where
      n1: "tr1 = new1 @ tr" "list_all (every (fold_event df i fold')) new1" by blast
    show "\<exists>new. fst (k_fold_fold env config df lf i fold' cvs tr) = new @ tr \<and>
            list_all (every (fold_event df i fold')) new"
    proof (cases r1)
      case (Inl e)
      with tr1 n1 show ?thesis
        by (simp add: k_fold_fold_def Let_def bnd_def)
    next
      case (Inr x)
      obtain meter history model where x: "x = (meter, history, model)" by (cases x)
      with Inr tr1 t have m: "model = i" by blast
      let ?k = "\<lambda>final_dice. bnd (validate env i (val_images_of (df_val_of df fold')) lf False)
        (\<lambda>_. bnd (emit (Del_model i))
        (\<lambda>_. bnd (emit Empty_cache)
        (\<lambda>_. bnd (case lf of None \<Rightarrow> ret ()
           | Some folder \<Rightarrow>
               bnd (call (Save_pred_mask i) (np_save_pred_mask env folder i meter))
                 (\<lambda>_. call (History_to_csv i) (history_to_csv env folder i history)))
        (\<lambda>_. if lf = None \<or> length (selected_folds config) = 1 then ret (cvs @ [final_dice], Some meter)
              else bnd (emit Del_meter) (\<lambda>_. bnd (emit Gc_collect) (\<lambda>_. ret (cvs @ [final_dice], None)))))))"
      have k: "adds (every (fold_event df i fold')) (bnd (last_value history) ?k)"
        unfolding last_value_def
        by (auto intro!: adds_intros v split: option.splits)
      have eq: "k_fold_fold env config df lf i fold' cvs tr = bnd (last_value history) ?k tr1"
        using tr1 Inr x m by (simp add: k_fold_fold_def Let_def bnd_def)
      from k obtain new2 where "fst (bnd (last_value history) ?k tr1) = new2 @ tr1"
        "list_all (every (fold_event df i fold')) new2"
        unfolding adds_def by blast
      with eq n1 show ?thesis
        by (intro exI[of _ "new2 @ new1"]) simp
    qed
  qed
qed

lemma adds_k_fold_loop:
  "adds (every (loop_event config df efs)) (k_fold_loop env config df lf efs cvs)"
proof (induction efs arbitrary: cvs)
  case Nil
  show ?case by (simp add: k_fold_loop_Nil adds_ret)
next
  case (Cons ef efs)
  obtain i fold' where ef: "ef = (i, fold')" by (cases ef)
  have rest: "adds (every (loop_event config df (ef # efs))) (k_fold_loop env config df lf efs cvs')" for cvs'
    by (rule adds_weaken[OF Cons.IH]) (auto simp: list_all_iff loop_event_def)
  have this_fold: "int i \<in> set (selected_folds config) \<Longrightarrow>
     adds (every (loop_event config df (ef # efs))) (k_fold_fold env config df lf i fold' cvs)"
    by (rule adds_weaken[OF adds_k_fold_fold]) (auto simp: list_all_iff loop_event_def ef)
  show ?case
    using rest this_fold unfolding ef k_fold_loop_Cons
    by (auto intro!: adds_bnd adds_ret split: prod.splits option.splits)
qed

lemma adds_k_fold:
  "adds (every (\<lambda>ev. (\<exists>m s. ev = Print_average m s) \<or>
                      loop_event config df (enumerate 0 (unique (map cv df))) ev))
     (k_fold env config df lf)"
proof -
  have "adds (every (\<lambda>ev. (\<exists>m s. ev = Print_average m s) \<or>
                      loop_event config df (enumerate 0 (unique (map cv df))) ev))
     (k_fold_loop env config df lf (enumerate 0 (unique (map cv df))) cvs)" for cvs
    by (rule adds_weaken[OF adds_k_fold_loop]) (auto simp: list_all_iff)
  then show ?thesis
    unfolding k_fold_def Let_def
    by (auto intro!: adds_intros split: prod.splits option.splits)
qed

lemma trained_folds_Cons:
  "trained_folds (e # tr) = trained_folds tr @ concat (map fit_fold (attempted e))"
  by (simp add: trained_folds_def events_Cons)

lemma reports_Cons: "reports (e # tr) = reports tr @ concat (map printed (attempted e))"
  by (simp add: reports_def events_Cons)

lemma trained_folds_Nil: "trained_folds [] = []"
  by (simp add: trained_folds_def events_Nil)

lemma reports_Nil: "reports [] = []"
  by (simp add: reports_def events_Nil)

lemma validate_event_quiet:
  "validate_event m ev \<Longrightarrow> fit_fold ev = [] \<and> printed ev = [] \<and> model_step (Done ev) s = s
     \<and> model_step (Failed ev e) s = s \<and> (\<forall>k. ev \<noteq> Define_model k)"
  by (cases ev; cases s) simp_all

lemma one_model_resident: "one_model_at_a_time tr \<Longrightarrow> length (resident tr) \<le> 1"
  by (cases tr) (simp_all add: resident_def)

lemma quiet_frame:
  assumes "list_all (every (validate_event m)) new"
  shows "trained_folds (new @ tr) = trained_folds tr \<and>
         reports (new @ tr) = reports tr \<and>
         model_state (new @ tr) = model_state tr \<and>
         (one_model_at_a_time tr \<longrightarrow> one_model_at_a_time (new @ tr))"
  using assms
proof (induction new)
  case Nil
  show ?case by simp
next
  case (Cons e new)
  have q: "list_all (validate_event m) (attempted e)" and n: "list_all (every (validate_event m)) new"
    using Cons.prems by simp_all
  note ih = Cons.IH[OF n]
  have ms: "model_step e s = s" for s
    using q validate_event_quiet[of m] by (cases e; cases s) auto
  have tf: "concat (map fit_fold (attempted e)) = []" "concat (map printed (attempted e)) = []"
    using q validate_event_quiet[of m] by (cases e; auto)+
  have nd: "\<forall>k. Define_model k \<notin> set (attempted e)"
    using q validate_event_quiet[of m] by (cases e) auto
  have res: "resident (e # new @ tr) = resident tr"
    using ih ms by (simp add: resident_def)
  show ?case
    using ih ms tf nd res one_model_resident[of tr]
    by (simp add: trained_folds_Cons reports_Cons)
qed

lemma validate_frame:
  assumes "validate env m imgs lf full tr = (tr', r)"
  shows "trained_folds tr' = trained_folds tr \<and> reports tr' = reports tr \<and>
         model_state tr' = model_state tr \<and> (one_model_at_a_time tr \<longrightarrow> one_model_at_a_time tr')"
proof -
  from adds_run[OF adds_validate assms] obtain new where
    "tr' = new @ tr" "list_all (every (validate_event m)) new" by blast
  then show ?thesis using quiet_frame[of m new tr] by simp
qed

lemma train_Inr:
  assumes "train env config dtr dva i lf tr = (tr1, Inr (meter, history, model))"
  shows "model = i \<and> fit env i dtr dva = Inr (meter, history) \<and>
         trained_folds tr1 = trained_folds tr @ [i] \<and> reports tr1 = reports tr"
  using assms unfolding train_def Let_def
  by (auto simp: bnd_def call_def ret_def emit_def trained_folds_Cons reports_Cons
      split: sum.splits prod.splits option.splits if_splits)

lemma k_fold_fold_Inr:
  assumes "k_fold_fold env config df lf i fold' cvs tr = (tr', Inr (cvs', returned))"
  shows "\<exists>meter history.
           fit env i (df_train_of df fold') (df_val_of df fold') = Inr (meter, history) \<and>
           history \<noteq> [] \<and> cvs' = cvs @ [last history] \<and>
           returned = (if lf = None \<or> length (selected_folds config) = 1 then Some meter else None) \<and>
           trained_folds tr' = trained_folds tr @ [i] \<and> reports tr' = reports tr"
  using assms unfolding k_fold_fold_def Let_def last_value_def
  by (auto simp: bnd_def call_def ret_def emit_def throw_def trained_folds_Cons reports_Cons
      split: sum.splits prod.splits option.splits if_splits
      dest!: train_Inr validate_frame)

lemma train_models:
  assumes "train env config dtr dva i lf tr = (tr1, r)"
    and "one_model_at_a_time tr" and "model_state tr = ([], [])"
  shows "one_model_at_a_time tr1 \<and> (\<forall>x. r = Inr x \<longrightarrow> model_state tr1 = ([i], []) \<and> snd (snd x) = i)"
  using assms unfolding train_def Let_def
  by (auto simp: bnd_def call_def ret_def emit_def resident_def
      split: sum.splits prod.splits option.splits if_splits)

lemma k_fold_fold_models:
  assumes "k_fold_fold env config df lf i fold' cvs tr = (tr', r)"
    and "one_model_at_a_time tr" and "model_state tr = ([], [])"
  shows "one_model_at_a_time tr' \<and> (\<forall>x. r = Inr x \<longrightarrow> model_state tr' = ([], []))"
proof -
  let ?dtr = "df_train_of df fold'" and ?dva = "df_val_of df fold'"
  obtain tr1 r1 where t: "train env config ?dtr ?dva i lf tr = (tr1, r1)"
    by (cases "train env config ?dtr ?dva i lf tr")
  note tm = train_models[OF t assms(2,3)]
  show ?thesis
  proof (cases r1)
    case (Inl e)
    with t assms(1) tm show ?thesis
      by (auto simp: k_fold_fold_def Let_def bnd_def)
  next
    case (Inr x)
    obtain meter history model where x: "x = (meter, history, model)" by (cases x)
    from tm Inr x have s1: "one_model_at_a_time tr1" "model_state tr1 = ([i], [])" "model = i"
      by simp_all
    show ?thesis
      using assms(1) t Inr x s1 unfolding k_fold_fold_def Let_def last_value_def
      by (auto simp: bnd_def call_def ret_def emit_def throw_def resident_def
          split: sum.splits prod.splits option.splits if_splits
          dest!: validate_frame)
  qed
qed

lemma selected_Cons:
  "selected config ((i, fold') # efs) =
     (if int i \<in> set (selected_folds config) then (i, fold') # selected config efs
      else selected config efs)"
  by (simp add: selected_def)

lemma k_fold_loop_Inr:
  assumes "k_fold_loop env config df lf efs cvs tr = (tr', Inr (cvs', returned))"
  shows "trained_folds tr' = trained_folds tr @ map fst (processed config lf efs) \<and>
         reports tr' = reports tr \<and>
         map Some cvs' = map Some cvs @ map (final_dice env df) (processed config lf efs) \<and>
         (returned = None \<longleftrightarrow> \<not> returns_early config lf \<or> selected config efs = [])"
  using assms
proof (induction efs arbitrary: cvs tr)
  case Nil
  then show ?case by (simp add: processed_def selected_def)
next
  case (Cons ef efs)
  obtain i fold' where ef: "ef = (i, fold')" by (cases ef)
  show ?case
  proof (cases "int i \<in> set (selected_folds config)")
    case False
    with Cons.prems ef have "k_fold_loop env config df lf efs cvs tr = (tr', Inr (cvs', returned))"
      by simp
    from Cons.IH[OF this] False show ?thesis
      by (simp add: ef processed_def selected_Cons)
  next
    case True
    from Cons.prems ef True obtain tr1 cvs1 ret1 where
      body: "k_fold_fold env config df lf i fold' cvs tr = (tr1, Inr (cvs1, ret1))" and
      rest: "case ret1 of Some meter \<Rightarrow> (tr', cvs', returned) = (tr1, cvs1, Some meter)
             | None \<Rightarrow> k_fold_loop env config df lf efs cvs1 tr1 = (tr', Inr (cvs', returned))"
      by (auto split: prod.splits sum.splits option.splits)
    from k_fold_fold_Inr[OF body] obtain meter history where
      f: "fit env i (df_train_of df fold') (df_val_of df fold') = Inr (meter, history)"
        "history \<noteq> []" "cvs1 = cvs @ [last history]"
        "ret1 = (if lf = None \<or> length (selected_folds config) = 1 then Some meter else None)"
        "trained_folds tr1 = trained_folds tr @ [i]" "reports tr1 = reports tr"
      by blast
    have fd: "final_dice env df (i, fold') = Some (last history)"
      using f(1,2) by (simp add: final_dice_def)
    show ?thesis
    proof (cases "returns_early config lf")
      case early: True
      with f(4) have "ret1 = Some meter" by (simp add: returns_early_def)
      with rest have "tr' = tr1" "cvs' = cvs1" "returned = Some meter" by simp_all
      with f fd early True show ?thesis
        by (simp add: ef processed_def selected_Cons)
    next
      case late: False
      with f(4) have "ret1 = None" by (simp add: returns_early_def)
      with rest have "k_fold_loop env config df lf efs cvs1 tr1 = (tr', Inr (cvs', returned))"
        by simp
      from Cons.IH[OF this] f fd late True show ?thesis
        by (simp add: ef processed_def selected_Cons)
    qed
  qed
qed

lemma k_fold_Inr:
  assumes "k_fold env config df lf tr = (tr', Inr (cvs, returned))"
  shows "\<exists>tr0. k_fold_loop env config df lf (enumerate 0 (unique (map cv df))) [] tr = (tr0, Inr (cvs, returned)) \<and>
           tr' = (if returned = None then Done (Print_average (np_mean cvs) (np_std cvs)) # tr0 else tr0)"
  using assms unfolding k_fold_def Let_def
  by (auto simp: bnd_def ret_def emit_def split: prod.splits sum.splits option.splits)

lemma k_fold_loop_models:
  assumes "k_fold_loop env config df lf efs cvs tr = (tr', r)"
    and "one_model_at_a_time tr" and "model_state tr = ([], [])"
  shows "one_model_at_a_time tr' \<and> (\<forall>x. r = Inr x \<longrightarrow> model_state tr' = ([], []))"
  using assms
proof (induction efs arbitrary: cvs tr)
  case Nil
  then show ?case by auto
next
  case (Cons ef efs)
  obtain i fold' where ef: "ef = (i, fold')" by (cases ef)
  show ?case
  proof (cases "int i \<in> set (selected_folds config)")
    case False
    with Cons.prems ef have "k_fold_loop env config df lf efs cvs tr = (tr', r)" by simp
    from Cons.IH[OF this Cons.prems(2,3)] show ?thesis .
  next
    case True
    obtain tr1 r1 where body: "k_fold_fold env config df lf i fold' cvs tr = (tr1, r1)"
      by (cases "k_fold_fold env config df lf i fold' cvs tr")
    note m = k_fold_fold_models[OF body Cons.prems(2,3)]
    show ?thesis
    proof (cases r1)
      case (Inl e)
      with Cons.prems(1) ef True body m show ?thesis by auto
    next
      case (Inr x)
      obtain cvs1 ret1 where x: "x = (cvs1, ret1)" by (cases x)
      show ?thesis
      proof (cases ret1)
        case None
        with Cons.prems(1) ef True body Inr x
        have "k_fold_loop env config df lf efs cvs1 tr1 = (tr', r)" by simp
        from Cons.IH[OF this] m Inr show ?thesis by simp
      next
        case (Some meter)
        with Cons.prems(1) ef True body Inr x m show ?thesis by auto
      qed
    qed
  qed
qed

lemma k_fold_models: "one_model_at_a_time (fst (k_fold env config df lf []))"
proof -
  obtain tr0 r0 where l: "k_fold_loop env config df lf (enumerate 0 (unique (map cv df))) [] [] = (tr0, r0)"
    by (cases "k_fold_loop env config df lf (enumerate 0 (unique (map cv df))) [] []")
  from k_fold_loop_models[OF l] have m: "one_model_at_a_time tr0"
    "\<forall>x. r0 = Inr x \<longrightarrow> model_state tr0 = ([], [])" by simp_all
  show ?thesis
    using l m unfolding k_fold_def Let_def
    by (auto simp: bnd_def ret_def emit_def resident_def split: prod.splits sum.splits option.splits)
qed

lemma one_model_suffix: "one_model_at_a_time (new @ old) \<Longrightarrow> one_model_at_a_time old"
  by (induction new) simp_all

lemma set_unique_from: "set (unique_from seen xs) = set xs - set seen"
  by (induction seen xs rule: unique_from.induct) auto

lemma set_unique: "set (unique xs) = set xs"
  by (simp add: unique_def set_unique_from)

lemma distinct_unique_from: "distinct (unique_from seen xs) \<and> set (unique_from seen xs) \<inter> set seen = {}"
  by (induction seen xs rule: unique_from.induct) (auto simp: set_unique_from)

lemma in_events: "ev \<in> set (events tr) \<longleftrightarrow> (\<exists>e \<in> set tr. ev \<in> set (attempted e))"
  by (auto simp: events_def)

lemma adds_top:
  assumes "adds (every P) m" and "ev \<in> set (events (fst (m [])))"
  shows "P ev"
proof -
  from assms(1) obtain new where "fst (m []) = new @ []" "list_all (every P) new"
    unfolding adds_def by blast
  with assms(2) show ?thesis
    by (auto simp: in_events list_all_iff)
qed

lemma k_fold_event:
  assumes "ev \<in> set (events (fst (k_fold env config df lf [])))"
  shows "(\<exists>m s. ev = Print_average m s) \<or>
         (\<exists>i fold'. i < length (unique (map cv df)) \<and> fold' = unique (map cv df) ! i \<and>
            fold' \<in> cv ` set df \<and> int i \<in> set (selected_folds config) \<and> fold_event df i fold' ev)"
proof -
  from adds_top[OF adds_k_fold assms]
  consider "\<exists>m s. ev = Print_average m s" | "loop_event config df (enumerate 0 (unique (map cv df))) ev"
    by blast
  then show ?thesis
  proof cases
    case 1
    then show ?thesis by simp
  next
    case 2
    then obtain i fold' where p: "(i, fold') \<in> set (enumerate 0 (unique (map cv df)))"
      "int i \<in> set (selected_folds config)" "fold_event df i fold' ev"
      unfolding loop_event_def by auto
    from p(1) have "i < length (unique (map cv df))" "fold' = unique (map cv df) ! i"
      by (auto simp: in_set_enumerate_eq)
    moreover from this have "fold' \<in> cv ` set df"
      using set_unique[of "map cv df"] nth_mem by fastforce
    ultimately show ?thesis using p by blast
  qed
qed

section \<open>Lemmas about inference over the folds\<close>

lemma k_fold_inf_loop_Nil:
  "k_fold_inf_loop env config df lf full gt tta save [] scores = ret scores"
  by (rule ext) (simp add: ret_def)

lemma k_fold_inf_loop_Cons:
  "k_fold_inf_loop env config df lf full gt tta save ((i, fold') # rest) scores =
     (if int i \<in> set (selected_folds config) then
        bnd (k_fold_inf_fold env df lf full gt tta save i fold' scores)
          (\<lambda>scores'. k_fold_inf_loop env config df lf full gt tta save rest scores')
      else k_fold_inf_loop env config df lf full gt tta save rest scores)"
  by (rule ext) (simp add: bnd_def split: prod.splits sum.splits)

lemma fails_last_k_fold_inf_fold:
  "fails_last (k_fold_inf_fold env df lf full gt tta save i fold' scores)"
  unfolding k_fold_inf_fold_def Let_def
  by (auto intro!: fails_last_intros fails_last_validate_inf split: option.splits)

lemma fails_last_k_fold_inf_loop:
  "fails_last (k_fold_inf_loop env config df lf full gt tta save efs scores)"
proof (induction efs arbitrary: scores)
  case Nil
  show ?case by (simp add: k_fold_inf_loop_Nil fails_last_ret)
next
  case (Cons ef efs)
  obtain i fold' where ef: "ef = (i, fold')" by (cases ef)
  show ?case
    unfolding ef k_fold_inf_loop_Cons
    by (auto intro!: fails_last_bnd fails_last_k_fold_inf_fold Cons.IH)
qed

lemma fails_last_k_fold_inf: "fails_last (k_fold_inf env config df lf full gt tta save)"
  unfolding k_fold_inf_def by (rule fails_last_k_fold_inf_loop)









lemma map_fst_selected_enumerate:
  "map fst (selected config (enumerate n xs)) =
     filter (\<lambda>i. int i \<in> set (selected_folds config)) [n..<n + length xs]"
proof (induction xs arbitrary: n)
  case Nil
  show ?case by (simp add: selected_def)
next
  case (Cons x xs)
  have "[n..<n + length (x # xs)] = n # [Suc n..<Suc n + length xs]"
    using upt_rec[of n "n + length (x # xs)"] by simp
  with Cons[of "Suc n"] show ?case
    by (simp add: selected_Cons)
qed

subsection \<open>The lists of validate\<close>

lemma validate_image_store:
  assumes "validate_image env model lf full img st tr = (tr', Inr st')"
  shows "\<exists>t s. plot_thresh_scores env model img full = Inr (t, s) \<and>
           st' = list_append scores_addr (PList scores_addr) (list_append thresholds_addr (PFloat t) st)"
  using assms unfolding validate_image_def Let_def
  by (auto simp: bnd_def call_def ret_def split: sum.splits prod.splits option.splits)

lemma validate_loop_scores:
  assumes "validate_loop env model lf full imgs st tr = (tr', Inr st')"
    and "st scores_addr = Some xs"
  shows "st' scores_addr = Some (xs @ replicate (length imgs) (PList scores_addr))"
  using assms
proof (induction imgs arbitrary: st tr xs)
  case Nil
  then show ?case by simp
next
  case (Cons img imgs)
  from Cons.prems(1) obtain tr1 st1 where
    img: "validate_image env model lf full img st tr = (tr1, Inr st1)" and
    rest: "validate_loop env model lf full imgs st1 tr1 = (tr', Inr st')"
    by (auto split: prod.splits sum.splits)
  from validate_image_store[OF img] Cons.prems(2)
  have "st1 scores_addr = Some (xs @ [PList scores_addr])"
    by (auto simp: list_append_def scores_addr_def thresholds_addr_def)
  from Cons.IH[OF rest this] show ?case
    by (simp add: replicate_append_same)
qed

text \<open>
  For every list of images, each element of the list \<^verbatim>\<open>scores\<close> returned by
  \<^verbatim>\<open>validate\<close> is a reference to that list.
\<close>

lemma validate_scores:
  assumes "validate env model imgs lf full tr = (tr', Inr (st, scores, thresholds))"
  shows "scores = PList scores_addr \<and>
         st scores_addr = Some (replicate (length imgs) (PList scores_addr))"
proof -
  from assms obtain tr1 where
    "validate_loop env model lf full imgs [scores_addr \<mapsto> [], thresholds_addr \<mapsto> []] tr1 = (tr', Inr st)"
    "scores = PList scores_addr"
    unfolding validate_def
    by (auto simp: bnd_def call_def ret_def split: sum.splits prod.splits)
  with validate_loop_scores[of env model lf full imgs _ tr1 tr' st "[]"] show ?thesis
    by (simp add: scores_addr_def thresholds_addr_def)
qed

section \<open>Evaluation of concrete runs\<close>

lemmas run_defs =
  bnd_def call_def ret_def emit_def throw_def Let_def
  unique_def split_0_def df_train_of_def df_val_of_def val_images_of_def weights_name_def
  last_value_def np_mean_def np_std_def list_append_def scores_addr_def thresholds_addr_def
  train_def validate_image_def validate_def k_fold_fold_def k_fold_def
  predict_and_tune_def validate_inf_image_def validate_inf_def k_fold_inf_fold_def k_fold_inf_def
  events_def thresholds_used_def trained_folds_def evaluated_folds_def reports_def resident_def

lemmas demo_defs =
  demo_df_def demo_config_def demo_train_env_def failing_train_env_def demo_inf_env_def
  failing_inf_env_def

section \<open>Error propagation\<close>

lemma fails_last_propagates:
  assumes "fails_last m"
  shows "propagates (m [])"
proof -
  obtain tr r where run: "m [] = (tr, r)" by (cases "m []")
  from assms obtain new where new: "fst (m []) = new @ []"
    "case snd (m []) of Inr x \<Rightarrow> clean new
     | Inl err \<Rightarrow> \<exists>f rest. new = f # rest \<and> raised f = Some err \<and> clean rest"
    unfolding fails_last_def by blast
  from new(1) run have tr: "new = tr" by simp
  show ?thesis
  proof (cases r)
    case (Inl err)
    with new(2) run tr obtain f rest where "tr = f # rest" "raised f = Some err" "clean rest"
      by auto
    with Inl run show ?thesis
      by (auto simp: propagates_def clean_def list_all_iff)
  next
    case (Inr x)
    with new(2) run tr have "clean tr" by simp
    with Inr run show ?thesis
      by (auto simp: propagates_def clean_def list_all_iff)
  qed
qed

text \<open>
  Claim C5. No function of the two modules handles an exception. In every run of
  \<^verbatim>\<open>k_fold\<close>, \<^verbatim>\<open>k_fold_inf\<close>, \<^verbatim>\<open>validate\<close> and \<^verbatim>\<open>validate_inf\<close>, a call that raises
  (in training, in validation, or for one image) is the last thing the run does: nothing runs
  after it, so no fold or image is tried again or passed over, and the run ends with that
  very error instead of a result.
\<close>

theorem errors_propagate:
  "propagates (k_fold env config df log_folder []) \<and>
   propagates (k_fold_inf ienv config df log_folder use_full_size global_threshold use_tta save []) \<and>
   propagates (validate env model val_images log_folder use_full_size []) \<and>
   propagates (validate_inf ienv model val_images log_folder use_full_size global_threshold use_tta save [])"
  by (intro conjI fails_last_propagates fails_last_k_fold fails_last_k_fold_inf fails_last_validate
      fails_last_validate_inf)

theorem errors_propagate_witness:
  "raised (Failed (Fit 1 (df_train_of demo_df 9) (df_val_of demo_df 9)) (Raised ''out of memory''))
     = Some (Raised ''out of memory'') \<and>
   hd (fst (k_fold failing_train_env (demo_config [0, 1]) demo_df (Some ''log/'') []))
     = Failed (Fit 1 (df_train_of demo_df 9) (df_val_of demo_df 9)) (Raised ''out of memory'') \<and>
   snd (k_fold failing_train_env (demo_config [0, 1]) demo_df (Some ''log/'') [])
     = Inl (Raised ''out of memory'') \<and>
   trained_folds (fst (k_fold failing_train_env (demo_config [0, 1]) demo_df (Some ''log/'') [])) = [0, 1] \<and>
   k_fold_inf failing_inf_env (demo_config [0, 1]) demo_df (Some ''log/'') True None False False []
     = (Failed (Lookup_shape ''b'') IndexError #
        tl (fst (k_fold_inf failing_inf_env (demo_config [0, 1]) demo_df (Some ''log/'') True None False False [])),
        Inl IndexError) \<and>
   validate failing_train_env 0 [''a'', ''b'', ''c''] None False []
     = ([Failed (Plot_thresh_scores 0 ''b'') (Raised ''no such file''),
         Done (Plot_thresh_scores 0 ''a''), Done (Read_rles False)], Inl (Raised ''no such file'')) \<and>
   hd (fst (validate_inf failing_inf_env 0 [''a'', ''b'', ''c''] None False None False False []))
     = Failed (Lookup_shape ''b'') IndexError \<and>
   snd (validate_inf failing_inf_env 0 [''a'', ''b'', ''c''] None False None False False []) = Inl IndexError \<and>
   propagates (k_fold failing_train_env (demo_config [0, 1]) demo_df (Some ''log/'') []) \<and>
   propagates (k_fold_inf failing_inf_env (demo_config [0, 1]) demo_df (Some ''log/'') True None False False []) \<and>
   propagates (validate failing_train_env 0 [''a'', ''b'', ''c''] None False []) \<and>
   propagates (validate_inf failing_inf_env 0 [''a'', ''b'', ''c''] None False None False False [])"
  using errors_propagate[of failing_train_env "demo_config [0, 1]" demo_df "Some ''log/''"
      failing_inf_env True None False False 0 "[''a'', ''b'', ''c'']"]
    errors_propagate[of failing_train_env "demo_config [0, 1]" demo_df None
      failing_inf_env False None False False 0 "[''a'', ''b'', ''c'']"]
  by (simp add: run_defs demo_defs)

section \<open>Thresholds of validate_inf\<close>

lemma predict_and_tune_full:
  assumes "predict_and_tune env model True tta img tr = (tr', Inr (pred, threshold, score))"
  shows "threshold = 4 / 10 \<and> score = 0"
  using assms unfolding predict_and_tune_def
  by (auto simp: bnd_def call_def ret_def split: sum.splits prod.splits)

lemma validate_inf_full_value:
  "adds (every (\<lambda>ev. \<forall>p \<in> set (binarised_at ev). snd p = 4 / 10))
     (validate_inf env model imgs lf True None tta save)"
  unfolding validate_inf_def
  by (intro adds_bnd adds_call validate_inf_loop_full_value) simp_all

lemma thresholds_used_mem:
  "p \<in> set (thresholds_used tr) \<longleftrightarrow> (\<exists>ev \<in> set (events tr). p \<in> set (binarised_at ev))"
  by (auto simp: thresholds_used_def)

lemma validate_inf_image_full_score:
  assumes "validate_inf_image env model lf True tta save img gt tr = (tr', Inr (gt', sc))"
  shows "binarised_score env model tta (case gt of None \<Rightarrow> 4 / 10 | Some g \<Rightarrow> g) img = Some sc"
  using assms unfolding validate_inf_image_def predict_and_tune_def Let_def binarised_score_def
  by (auto simp: bnd_def call_def ret_def emit_def throw_def
      split: if_splits sum.splits prod.splits option.splits)

lemma validate_inf_loop_full_scores:
  assumes "validate_inf_loop env model lf True tta save imgs gt scores tr = (tr', Inr s)"
    and "gt = None \<or> gt = Some (4 / 10)"
  shows "map Some s = map Some scores @ map (binarised_score env model tta (4 / 10)) imgs"
  using assms
proof (induction imgs arbitrary: gt scores tr)
  case Nil
  then show ?case by auto
next
  case (Cons img imgs)
  from Cons.prems(1) obtain tr1 gt1 sc where
    img: "validate_inf_image env model lf True tta save img gt tr = (tr1, Inr (gt1, sc))" and
    rest: "validate_inf_loop env model lf True tta save imgs gt1 (scores @ [sc]) tr1 = (tr', Inr s)"
    by (auto split: prod.splits sum.splits)
  from validate_inf_image_threshold[OF img] Cons.prems(2) have gt1: "gt1 = Some (4 / 10)"
    by auto
  from validate_inf_image_full_score[OF img] Cons.prems(2)
  have sc: "binarised_score env model tta (4 / 10) img = Some sc"
    by auto
  from Cons.IH[OF rest] gt1 sc show ?case by simp
qed

lemma validate_inf_image_full_returns:
  assumes "binarised_score env model tta t img = Some sc"
    and "t = (case gt of None \<Rightarrow> 4 / 10 | Some g \<Rightarrow> g)"
    and "save \<longrightarrow> (\<exists>folder. lf = Some folder \<and> (\<forall>p. np_save_pred env folder img p = Inr ()))"
  shows "\<exists>tr'. validate_inf_image env model lf True tta save img gt tr = (tr', Inr (Some t, sc))"
  using assms unfolding validate_inf_image_def predict_and_tune_def Let_def binarised_score_def
  by (auto simp: bnd_def call_def ret_def emit_def throw_def
      split: if_splits sum.splits prod.splits option.splits)

lemma validate_inf_loop_full_returns:
  assumes "\<forall>img \<in> set imgs. binarised_score env model tta (4 / 10) img \<noteq> None"
    and "save \<longrightarrow> (\<exists>folder. lf = Some folder \<and>
           (\<forall>img \<in> set imgs. \<forall>p. np_save_pred env folder img p = Inr ()))"
    and "gt = None \<or> gt = Some (4 / 10)"
  shows "\<exists>tr' s. validate_inf_loop env model lf True tta save imgs gt scores tr = (tr', Inr s)"
  using assms
proof (induction imgs arbitrary: gt scores tr)
  case Nil
  show ?case by simp
next
  case (Cons img imgs)
  from Cons.prems(1) obtain sc where sc: "binarised_score env model tta (4 / 10) img = Some sc"
    by auto
  have t: "4 / 10 = (case gt of None \<Rightarrow> 4 / 10 | Some g \<Rightarrow> (g::real))"
    using Cons.prems(3) by auto
  have sv: "save \<longrightarrow> (\<exists>folder. lf = Some folder \<and> (\<forall>p. np_save_pred env folder img p = Inr ()))"
    using Cons.prems(2) by auto
  from validate_inf_image_full_returns[OF sc t sv] obtain tr1 where
    img: "validate_inf_image env model lf True tta save img gt tr = (tr1, Inr (Some (4 / 10), sc))"
    by blast
  have "\<exists>tr' s. validate_inf_loop env model lf True tta save imgs (Some (4 / 10)) (scores @ [sc]) tr1
          = (tr', Inr s)"
    using Cons.prems(1,2) by (intro Cons.IH) auto
  with img show ?case by simp
qed

text \<open>
  Claim C10. In \<^verbatim>\<open>validate_inf\<close> with \<^verbatim>\<open>use_full_size=True\<close> the threshold tuner is never
  called; the threshold of an image is the constant 0.4 and its score before scoring is the
  constant 0. With \<^verbatim>\<open>global_threshold=None\<close> every binarisation is at 0.4: in any run all
  of them are; a run that returns has binarised each image of \<^verbatim>\<open>val_images\<close> once, in
  order, at 0.4, and the score it returns for an image is the dice score of the mask
  \<^verbatim>\<open>global_pred > 0.4\<close> of that image's prediction; and the run does return whenever the
  collaborators do (the reads, and for each image the prediction, the shape lookup, the
  decoding, the saving when asked for, and the scoring of the mask binarised at 0.4).
\<close>

theorem validate_inf_full_size_threshold:
  "Tweak_threshold img \<notin> set (events (fst (validate_inf env model val_images log_folder True global_threshold use_tta save []))) \<and>
   (predict_and_tune env model True use_tta img tr = (tr', Inr (pred, threshold, score)) \<longrightarrow>
      threshold = 4 / 10 \<and> score = 0) \<and>
   (\<forall>p \<in> set (thresholds_used (fst (validate_inf env model val_images log_folder True None use_tta save []))).
      snd p = 4 / 10) \<and>
   (snd (validate_inf env model val_images log_folder True None use_tta save []) = Inr scores \<longrightarrow>
      thresholds_used (fst (validate_inf env model val_images log_folder True None use_tta save []))
        = map (\<lambda>img. (img, 4 / 10)) val_images \<and>
      map Some scores = map (binarised_score env model use_tta (4 / 10)) val_images) \<and>
   ((\<forall>t. read_csv env t = Inr ()) \<and>
    (\<forall>img \<in> set val_images. binarised_score env model use_tta (4 / 10) img \<noteq> None) \<and>
    (save \<longrightarrow> (\<exists>folder. log_folder = Some folder \<and>
                 (\<forall>img \<in> set val_images. \<forall>p. np_save_pred env folder img p = Inr ()))) \<longrightarrow>
      (\<exists>scores'. snd (validate_inf env model val_images log_folder True None use_tta save []) = Inr scores'))"
proof (intro conjI impI ballI)
  show "Tweak_threshold img \<notin> set (events (fst (validate_inf env model val_images log_folder True global_threshold use_tta save [])))"
  proof
    assume "Tweak_threshold img \<in> set (events (fst (validate_inf env model val_images log_folder True global_threshold use_tta save [])))"
    from adds_top[OF adds_validate_inf this] show False by simp
  qed
next
  assume "predict_and_tune env model True use_tta img tr = (tr', Inr (pred, threshold, score))"
  then have "threshold = 4 / 10 \<and> score = 0"
    by (rule predict_and_tune_full)
  then show "threshold = 4 / 10" "score = 0"
    by simp_all
next
  fix p
  assume "p \<in> set (thresholds_used (fst (validate_inf env model val_images log_folder True None use_tta save [])))"
  then obtain ev where
    "ev \<in> set (events (fst (validate_inf env model val_images log_folder True None use_tta save [])))"
    "p \<in> set (binarised_at ev)"
    by (auto simp: thresholds_used_mem)
  with adds_top[OF validate_inf_full_value this(1)] show "snd p = 4 / 10" by blast
next
  assume ok: "snd (validate_inf env model val_images log_folder True None use_tta save []) = Inr scores"
  have run: "validate_inf env model val_images log_folder True None use_tta save []
          = (fst (validate_inf env model val_images log_folder True None use_tta save []), Inr scores)"
    using ok by (simp add: prod_eq_iff)
  from validate_inf_full_threshold[OF run]
  show "thresholds_used (fst (validate_inf env model val_images log_folder True None use_tta save []))
        = map (\<lambda>img. (img, 4 / 10)) val_images"
    by (simp add: thresholds_used_def events_Nil)
  from validate_inf_loop_full_scores[OF validate_inf_reads[OF run]]
  show "map Some scores = map (binarised_score env model use_tta (4 / 10)) val_images"
    by simp
next
  assume a: "(\<forall>t. read_csv env t = Inr ()) \<and>
    (\<forall>img \<in> set val_images. binarised_score env model use_tta (4 / 10) img \<noteq> None) \<and>
    (save \<longrightarrow> (\<exists>folder. log_folder = Some folder \<and>
                 (\<forall>img \<in> set val_images. \<forall>p. np_save_pred env folder img p = Inr ())))"
  let ?tr0 = "[Done (Read_csv Rles_full), Done (Read_csv (Rles True)), Done (Read_csv Dataset_information)]"
  from a have "\<exists>tr' s. validate_inf_loop env model log_folder True use_tta save val_images None [] ?tr0
                 = (tr', Inr s)"
    by (intro validate_inf_loop_full_returns) auto
  then obtain tr' s where
    "validate_inf_loop env model log_folder True use_tta save val_images None [] ?tr0 = (tr', Inr s)"
    by blast
  with a have "validate_inf env model val_images log_folder True None use_tta save [] = (tr', Inr s)"
    unfolding validate_inf_def by (simp add: bnd_def call_def)
  then show "\<exists>scores'. snd (validate_inf env model val_images log_folder True None use_tta save []) = Inr scores'"
    by simp
qed

theorem validate_inf_full_size_threshold_witness:
  "predict_and_tune mask_inf_env 0 True False ''a'' []
     = ([Done (Predict_entire_mask 0 ''a'')], Inr ([1 / 2, 19 / 20], 4 / 10, 0)) \<and>
   (''b'', 4 / 10) \<in> set (thresholds_used (fst (validate_inf mask_inf_env 0 [''a'', ''b''] None True None False False []))) \<and>
   read_csv mask_inf_env Dataset_information = Inr () \<and>
   read_csv mask_inf_env (Rles True) = Inr () \<and>
   read_csv mask_inf_env Rles_full = Inr () \<and>
   snd (validate_inf mask_inf_env 0 [''a'', ''b''] None True None False False []) = Inr [1, 1] \<and>
   thresholds_used (fst (validate_inf mask_inf_env 0 [''a'', ''b''] None True None False False []))
     = map (\<lambda>img. (img, 4 / 10)) [''a'', ''b''] \<and>
   map (binarised_score mask_inf_env 0 False (4 / 10)) [''a'', ''b''] = [Some 1, Some 1] \<and>
   map (binarised_score mask_inf_env 0 False (9 / 10)) [''a'', ''b''] = [Some (1 / 2), Some (1 / 2)] \<and>
   Tweak_threshold ''a'' \<notin> set (events (fst (validate_inf mask_inf_env 0 [''a'', ''b''] None True None False False [])))"
  using validate_inf_full_size_threshold[of "''a''" mask_inf_env 0 "[''a'', ''b'']" None None False False
      "[]" "[Done (Predict_entire_mask 0 ''a'')]" "[1 / 2, 19 / 20]" "4 / 10" 0 "[1, 1]"]
  by (simp add: run_defs binarised_score_def mask_inf_env_def)

text \<open>
  With \<^verbatim>\<open>use_full_size=False\<close> and \<^verbatim>\<open>global_threshold=None\<close>, line 84 stores the tuned
  threshold of the first image in \<^verbatim>\<open>global_threshold\<close>, and every later image is
  binarised at that value.
\<close>

lemma validate_inf_first_threshold_for_all:
  assumes "validate_inf env model (img # imgs) lf False None tta save tr = (tr', Inr s)"
  shows "\<exists>p t sc. predict_entire_mask_downscaled env model img tta = Inr p \<and>
           tweak_threshold env img p = Inr (t, sc) \<and>
           thresholds_used tr' = thresholds_used tr @ map (\<lambda>j. (j, t)) (img # imgs)"
proof -
  let ?tr0 = "Done (Read_csv Rles_full) # Done (Read_csv (Rles False)) # Done (Read_csv Dataset_information) # tr"
  from validate_inf_reads[OF assms] obtain tr1 gt1 sc where
    img: "validate_inf_image env model lf False tta save img None ?tr0 = (tr1, Inr (gt1, sc))" and
    rest: "validate_inf_loop env model lf False tta save imgs gt1 [sc] tr1 = (tr', Inr s)"
    by (auto split: prod.splits sum.splits)
  from validate_inf_image_threshold[OF img] obtain t p sc' where
    t: "gt1 = Some t" "thresholds_used tr1 = thresholds_used ?tr0 @ [(img, t)]"
       "predict_entire_mask_downscaled env model img tta = Inr p" "tweak_threshold env img p = Inr (t, sc')"
    by auto
  from validate_inf_loop_fixed_threshold[OF rest[unfolded t(1)]] t show ?thesis
    by (simp add: thresholds_used_Cons)
qed

text \<open>
  Claim C1, at a concrete input. The tuner returns 0.3 for image \<open>a\<close> and 0.5 for image
  \<open>b\<close>; \<^verbatim>\<open>validate_inf\<close> with \<^verbatim>\<open>use_full_size=False\<close> and \<^verbatim>\<open>global_threshold=None\<close>
  binarises \<open>b\<close> at 0.3, the threshold of \<open>a\<close>, and not at its own 0.5.
\<close>

theorem validate_inf_second_image_first_threshold:
  "tweak_threshold demo_inf_env ''b'' () = Inr (5 / 10, 8 / 10) \<and>
   snd (validate_inf demo_inf_env 0 [''a'', ''b''] None False None False False []) = Inr [1, 1] \<and>
   thresholds_used (fst (validate_inf demo_inf_env 0 [''a'', ''b''] None False None False False []))
     = [(''a'', 3 / 10), (''b'', 3 / 10)]"
  by (simp add: run_defs demo_defs)

text \<open>
  Claim C2, at a concrete input. For the single image \<open>a\<close> the tuner returns the score 0.9;
  the list \<^verbatim>\<open>scores\<close> that \<^verbatim>\<open>validate\<close> returns then has one element, which is a reference
  to the list \<^verbatim>\<open>scores\<close> itself (line 131 is \<^verbatim>\<open>scores.append(scores)\<close>) and not the number
  0.9, while \<^verbatim>\<open>thresholds\<close> holds the threshold 0.5.
\<close>

theorem validate_appends_scores_to_itself:
  "plot_thresh_scores demo_train_env 0 ''a'' False = Inr (1 / 2, 9 / 10) \<and>
   (case snd (validate demo_train_env 0 [''a''] None False []) of
      Inl e \<Rightarrow> False
    | Inr (st, scores, thresholds) \<Rightarrow>
        scores = PList scores_addr \<and> st scores_addr = Some [PList scores_addr] \<and>
        thresholds = PList thresholds_addr \<and> st thresholds_addr = Some [PFloat (1 / 2)])"
  by (simp add: run_defs demo_defs)

section \<open>The folds of k_fold\<close>

lemma validated_Cons: "validated (e # tr) = validated tr @ concat (map plot_img (attempted e))"
  by (simp add: validated_def events_Cons)

lemma validated_Nil: "validated [] = []"
  by (simp add: validated_def events_Nil)

lemma validate_image_validated:
  assumes "validate_image env model lf full img st tr = (tr', Inr st')"
  shows "validated tr' = validated tr @ [(model, img)]"
  using assms unfolding validate_image_def Let_def
  by (auto simp: bnd_def call_def ret_def validated_Cons split: sum.splits prod.splits option.splits)

lemma validate_loop_validated:
  assumes "validate_loop env model lf full imgs st tr = (tr', Inr st')"
  shows "validated tr' = validated tr @ map (Pair model) imgs"
  using assms
proof (induction imgs arbitrary: st tr)
  case Nil
  then show ?case by simp
next
  case (Cons img imgs)
  from Cons.prems obtain tr1 st1 where
    img: "validate_image env model lf full img st tr = (tr1, Inr st1)" and
    rest: "validate_loop env model lf full imgs st1 tr1 = (tr', Inr st')"
    by (auto split: prod.splits sum.splits)
  from validate_image_validated[OF img] Cons.IH[OF rest] show ?case by simp
qed

lemma validate_validated:
  assumes "validate env model imgs lf full tr = (tr', Inr x)"
  shows "validated tr' = validated tr @ map (Pair model) imgs"
proof -
  from assms obtain st where
    "validate_loop env model lf full imgs [scores_addr \<mapsto> [], thresholds_addr \<mapsto> []]
       (Done (Read_rles full) # tr) = (tr', Inr st)"
    unfolding validate_def
    by (auto simp: bnd_def call_def ret_def split: sum.splits prod.splits)
  from validate_loop_validated[OF this] show ?thesis
    by (simp add: validated_Cons)
qed

lemma train_validated:
  assumes "train env config dtr dva i lf tr = (tr1, r)"
  shows "validated tr1 = validated tr"
  using assms unfolding train_def Let_def
  by (auto simp: bnd_def call_def ret_def emit_def validated_Cons
      split: sum.splits prod.splits option.splits if_splits)

lemma k_fold_fold_validated:
  assumes "k_fold_fold env config df lf i fold' cvs tr = (tr', Inr (cvs', returned))"
  shows "validated tr' = validated tr @ fold_images df (i, fold') \<and>
         returned = (if returns_early config lf then fold_meter env df (i, fold') else None)"
proof -
  let ?dtr = "df_train_of df fold'" and ?dva = "df_val_of df fold'"
  from k_fold_fold_Inr[OF assms] have ret:
    "returned = (if returns_early config lf then fold_meter env df (i, fold') else None)"
    by (auto simp: returns_early_def fold_meter_def)
  obtain tr1 r1 where t: "train env config ?dtr ?dva i lf tr = (tr1, r1)"
    by (cases "train env config ?dtr ?dva i lf tr")
  from assms t obtain meter history model where r1: "r1 = Inr (meter, history, model)"
    unfolding k_fold_fold_def Let_def
    by (cases r1) (auto simp: bnd_def)
  from train_Inr[OF t[unfolded r1]] have m: "model = i" by simp
  from assms t r1 m obtain tr2 x where
    v: "validate env i (val_images_of ?dva) lf False tr1 = (tr2, Inr x)" and
    tl: "validated tr' = validated tr2"
    unfolding k_fold_fold_def Let_def last_value_def
    by (auto simp: bnd_def call_def ret_def emit_def throw_def validated_Cons
        split: sum.splits prod.splits option.splits if_splits)
  from validate_validated[OF v] train_validated[OF t] tl ret show ?thesis
    by (simp add: fold_images_def)
qed

lemma k_fold_loop_validated:
  assumes "k_fold_loop env config df lf efs cvs tr = (tr', Inr (cvs', returned))"
  shows "validated tr' = validated tr @ concat (map (fold_images df) (processed config lf efs)) \<and>
         returned = (if returns_early config lf
                     then (case selected config efs of [] \<Rightarrow> None | p # ps \<Rightarrow> fold_meter env df p)
                     else None)"
  using assms
proof (induction efs arbitrary: cvs tr)
  case Nil
  then show ?case by (simp add: processed_def selected_def)
next
  case (Cons ef efs)
  obtain i fold' where ef: "ef = (i, fold')" by (cases ef)
  show ?case
  proof (cases "int i \<in> set (selected_folds config)")
    case False
    with Cons.prems ef have "k_fold_loop env config df lf efs cvs tr = (tr', Inr (cvs', returned))"
      by simp
    from Cons.IH[OF this] False show ?thesis
      by (simp add: ef processed_def selected_Cons)
  next
    case True
    from Cons.prems ef True obtain tr1 cvs1 ret1 where
      body: "k_fold_fold env config df lf i fold' cvs tr = (tr1, Inr (cvs1, ret1))" and
      rest: "case ret1 of Some meter \<Rightarrow> (tr', cvs', returned) = (tr1, cvs1, Some meter)
             | None \<Rightarrow> k_fold_loop env config df lf efs cvs1 tr1 = (tr', Inr (cvs', returned))"
      by (auto split: prod.splits sum.splits option.splits)
    note b = k_fold_fold_validated[OF body]
    from k_fold_fold_Inr[OF body] obtain meter where
      r1: "ret1 = (if returns_early config lf then Some meter else None)"
      by (auto simp: returns_early_def)
    show ?thesis
    proof (cases "returns_early config lf")
      case early: True
      with r1 rest have "tr' = tr1" "returned = ret1" by simp_all
      with b early True show ?thesis
        by (simp add: ef processed_def selected_Cons)
    next
      case late: False
      with r1 rest have "k_fold_loop env config df lf efs cvs1 tr1 = (tr', Inr (cvs', returned))"
        by simp
      from Cons.IH[OF this] b late True show ?thesis
        by (simp add: ef processed_def selected_Cons)
    qed
  qed
qed

lemma k_fold_run_validated:
  assumes "snd (k_fold env config df lf []) = Inr (cvs, returned)"
  shows "validated (fst (k_fold env config df lf []))
           = concat (map (fold_images df) (processed config lf (enumerate 0 (unique (map cv df)))))"
    and "returned = (if returns_early config lf
                     then (case selected config (enumerate 0 (unique (map cv df))) of
                             [] \<Rightarrow> None | p # ps \<Rightarrow> fold_meter env df p)
                     else None)"
proof -
  let ?efs = "enumerate 0 (unique (map cv df))"
  have "k_fold env config df lf [] = (fst (k_fold env config df lf []), Inr (cvs, returned))"
    using assms(1) by (simp add: prod_eq_iff)
  from k_fold_Inr[OF this] obtain tr0 where
    l: "k_fold_loop env config df lf ?efs [] [] = (tr0, Inr (cvs, returned))" and
    t: "fst (k_fold env config df lf []) =
          (if returned = None then Done (Print_average (np_mean cvs) (np_std cvs)) # tr0 else tr0)"
    by blast
  note r = k_fold_loop_validated[OF l]
  show "validated (fst (k_fold env config df lf [])) = concat (map (fold_images df) (processed config lf ?efs))"
    using r t by (simp add: validated_Cons validated_Nil)
  show "returned = (if returns_early config lf
                     then (case selected config ?efs of [] \<Rightarrow> None | p # ps \<Rightarrow> fold_meter env df p)
                     else None)"
    using r by simp
qed

lemma k_fold_run:
  assumes "snd (k_fold env config df lf []) = Inr (cvs, returned)"
  shows "trained_folds (fst (k_fold env config df lf []))
           = map fst (processed config lf (enumerate 0 (unique (map cv df))))"
    and "map Some cvs
           = map (final_dice env df) (processed config lf (enumerate 0 (unique (map cv df))))"
    and "returned = None \<longleftrightarrow>
           \<not> returns_early config lf \<or> selected config (enumerate 0 (unique (map cv df))) = []"
    and "reports (fst (k_fold env config df lf [])) =
           (if returned = None then [(np_mean cvs, np_std cvs)] else [])"
    and "returned = None \<Longrightarrow>
           hd (fst (k_fold env config df lf [])) = Done (Print_average (np_mean cvs) (np_std cvs))"
proof -
  let ?efs = "enumerate 0 (unique (map cv df))"
  have "k_fold env config df lf [] = (fst (k_fold env config df lf []), Inr (cvs, returned))"
    using assms(1) by (simp add: prod_eq_iff)
  from k_fold_Inr[OF this] obtain tr0 where
    l: "k_fold_loop env config df lf ?efs [] [] = (tr0, Inr (cvs, returned))" and
    t: "fst (k_fold env config df lf []) =
          (if returned = None then Done (Print_average (np_mean cvs) (np_std cvs)) # tr0 else tr0)"
    by blast
  note r = k_fold_loop_Inr[OF l]
  show "trained_folds (fst (k_fold env config df lf [])) = map fst (processed config lf ?efs)"
    using r t by (simp add: trained_folds_Cons trained_folds_Nil)
  show "map Some cvs = map (final_dice env df) (processed config lf ?efs)"
    using r by simp
  show "returned = None \<longleftrightarrow> \<not> returns_early config lf \<or> selected config ?efs = []"
    using r by simp
  show "reports (fst (k_fold env config df lf [])) =
           (if returned = None then [(np_mean cvs, np_std cvs)] else [])"
    using r t by (simp add: reports_Cons reports_Nil)
  show "returned = None \<Longrightarrow>
           hd (fst (k_fold env config df lf [])) = Done (Print_average (np_mean cvs) (np_std cvs))"
    using t by simp
qed


lemma selected_enumerate_Nil:
  "selected config (enumerate 0 xs) = [] \<longleftrightarrow>
     filter (\<lambda>i. int i \<in> set (selected_folds config)) [0..<length xs] = []"
  using map_fst_selected_enumerate[of config 0 xs]
  by (metis add_0 map_is_Nil_conv)

lemma always_returnsD:
  assumes "always_returns env"
  shows "define_model env i = Inr ()"
    and "\<exists>meter history. fit env i df_train df_val = Inr (meter, history) \<and> history \<noteq> []"
    and "save_model_weights env model name folder = Inr ()"
    and "save_as_jit env model folder name = Inr ()"
    and "read_rles env full = Inr ()"
    and "\<exists>threshold score. plot_thresh_scores env model img full = Inr (threshold, score)"
    and "np_save_global_pred env folder img = Inr ()"
    and "np_save_pred_mask env folder i meter = Inr ()"
    and "history_to_csv env folder i history = Inr ()"
  using assms by (simp_all add: always_returns_def)

lemma train_returns:
  assumes "always_returns env"
  shows "\<exists>tr' meter history. train env config dtr dva i lf tr = (tr', Inr (meter, history, i)) \<and>
           history \<noteq> []"
proof -
  from always_returnsD(2)[OF assms] obtain meter history where
    f: "fit env i dtr dva = Inr (meter, history)" "history \<noteq> []"
    by blast
  note s = always_returnsD(1,3,4)[OF assms]
  show ?thesis
    unfolding train_def Let_def
    by (cases lf) (simp_all add: f s bnd_def call_def ret_def emit_def)
qed

lemma validate_image_returns:
  assumes "always_returns env"
  shows "\<exists>tr' st'. validate_image env model lf full img st tr = (tr', Inr st')"
proof -
  from always_returnsD(6)[OF assms] obtain t sc where
    p: "plot_thresh_scores env model img full = Inr (t, sc)"
    by blast
  note s = always_returnsD(7)[OF assms]
  show ?thesis
    unfolding validate_image_def Let_def
    by (cases lf) (simp_all add: p s bnd_def call_def ret_def)
qed

lemma validate_loop_returns:
  assumes "always_returns env"
  shows "\<exists>tr' st'. validate_loop env model lf full imgs st tr = (tr', Inr st')"
proof (induction imgs arbitrary: st tr)
  case Nil
  show ?case by simp
next
  case (Cons img imgs)
  from validate_image_returns[OF assms] obtain tr1 st1 where
    "validate_image env model lf full img st tr = (tr1, Inr st1)" by blast
  with Cons[of st1 tr1] show ?case by simp
qed

lemma validate_returns:
  assumes "always_returns env"
  shows "\<exists>tr' x. validate env model imgs lf full tr = (tr', Inr x)"
proof -
  note r = always_returnsD(5)[OF assms]
  from validate_loop_returns[OF assms] obtain tr1 st1 where
    "validate_loop env model lf full imgs [scores_addr \<mapsto> [], thresholds_addr \<mapsto> []]
       (Done (Read_rles full) # tr) = (tr1, Inr st1)" by blast
  then show ?thesis
    unfolding validate_def by (simp add: r bnd_def call_def ret_def)
qed

lemma k_fold_fold_returns:
  assumes "always_returns env"
  shows "\<exists>tr' x. k_fold_fold env config df lf i fold' cvs tr = (tr', Inr x)"
proof -
  from train_returns[OF assms] obtain tr1 meter history where
    t: "train env config (df_train_of df fold') (df_val_of df fold') i lf tr
          = (tr1, Inr (meter, history, i))" "history \<noteq> []" by blast
  from validate_returns[OF assms] obtain tr2 x where
    v: "validate env i (val_images_of (df_val_of df fold')) lf False tr1 = (tr2, Inr x)" by blast
  note s = always_returnsD(8,9)[OF assms]
  show ?thesis
    using t v unfolding k_fold_fold_def Let_def last_value_def
    by (auto simp: s bnd_def call_def ret_def emit_def split: option.splits)
qed

lemma k_fold_loop_returns:
  assumes "always_returns env"
  shows "\<exists>tr' x. k_fold_loop env config df lf efs cvs tr = (tr', Inr x)"
proof (induction efs arbitrary: cvs tr)
  case Nil
  show ?case by simp
next
  case (Cons ef efs)
  obtain i fold' where ef: "ef = (i, fold')" by (cases ef)
  from k_fold_fold_returns[OF assms] obtain tr1 cvs1 ret1 where
    b: "k_fold_fold env config df lf i fold' cvs tr = (tr1, Inr (cvs1, ret1))" by fastforce
  show ?case
    using Cons[of cvs tr] Cons[of cvs1 tr1] b
    by (cases ret1) (auto simp: ef)
qed

lemma k_fold_returns:
  assumes "always_returns env"
  shows "\<exists>cvs returned. snd (k_fold env config df lf []) = Inr (cvs, returned)"
proof -
  from k_fold_loop_returns[OF assms] obtain tr1 cvs1 ret1 where
    "k_fold_loop env config df lf (enumerate 0 (unique (map cv df))) [] [] = (tr1, Inr (cvs1, ret1))"
    by fastforce
  then show ?thesis
    unfolding k_fold_def Let_def
    by (cases ret1) (simp_all add: bnd_def ret_def emit_def)
qed

lemma demo_always_returns: "always_returns demo_train_env"
proof -
  have "\<exists>threshold score. (Inr (1 / 2, 9 / 10) :: error + real \<times> real) = Inr (threshold, score)"
    by blast
  then show ?thesis
    unfolding always_returns_def demo_train_env_def
    by (simp del: ex_simps)
qed

text \<open>
  Claim C3 as stated fails: with two selected folds, both present in the dataframe, and
  \<^verbatim>\<open>log_folder=None\<close>, \<^verbatim>\<open>k_fold\<close> returns the meter of fold 0 and never trains fold 1.
\<close>

theorem k_fold_two_selected_stops_after_first:
  "1 < length (selected_folds (demo_config [0, 1])) \<and>
   snd (k_fold demo_train_env (demo_config [0, 1]) demo_df None []) = Inr ([1], Some 0) \<and>
   trained_folds (fst (k_fold demo_train_env (demo_config [0, 1]) demo_df None [])) = [0]"
  by (simp add: run_defs demo_defs)

lemma k_fold_multi_fold_run:
  assumes "1 < length (selected_folds config)"
    and "snd (k_fold env config df log_folder []) = Inr (cvs, returned)"
  shows "map fst (selected config (enumerate 0 (unique (map cv df))))
           = filter (\<lambda>i. int i \<in> set (selected_folds config)) [0..<length (unique (map cv df))] \<and>
         (log_folder \<noteq> None \<longrightarrow>
            trained_folds (fst (k_fold env config df log_folder []))
              = map fst (selected config (enumerate 0 (unique (map cv df)))) \<and>
            validated (fst (k_fold env config df log_folder []))
              = concat (map (fold_images df) (selected config (enumerate 0 (unique (map cv df))))) \<and>
            map Some cvs = map (final_dice env df) (selected config (enumerate 0 (unique (map cv df)))) \<and>
            returned = None \<and>
            hd (fst (k_fold env config df log_folder [])) = Done (Print_average (np_mean cvs) (np_std cvs))) \<and>
         (log_folder = None \<longrightarrow>
            trained_folds (fst (k_fold env config df log_folder []))
              = map fst (take 1 (selected config (enumerate 0 (unique (map cv df))))) \<and>
            validated (fst (k_fold env config df log_folder []))
              = concat (map (fold_images df) (take 1 (selected config (enumerate 0 (unique (map cv df)))))) \<and>
            map Some cvs
              = map (final_dice env df) (take 1 (selected config (enumerate 0 (unique (map cv df))))) \<and>
            returned = (case selected config (enumerate 0 (unique (map cv df))) of
                          [] \<Rightarrow> None | p # ps \<Rightarrow> fold_meter env df p) \<and>
            (returned = None \<longleftrightarrow> selected config (enumerate 0 (unique (map cv df))) = []))"
proof -
  note r = k_fold_run[OF assms(2)] and v = k_fold_run_validated[OF assms(2)]
  have early: "returns_early config log_folder \<longleftrightarrow> log_folder = None"
    using assms(1) by (simp add: returns_early_def)
  have "map fst (selected config (enumerate 0 (unique (map cv df))))
           = filter (\<lambda>i. int i \<in> set (selected_folds config)) [0..<length (unique (map cv df))]"
    using map_fst_selected_enumerate[of config 0 "unique (map cv df)"] by simp
  moreover have "log_folder \<noteq> None \<longrightarrow>
            trained_folds (fst (k_fold env config df log_folder []))
              = map fst (selected config (enumerate 0 (unique (map cv df)))) \<and>
            validated (fst (k_fold env config df log_folder []))
              = concat (map (fold_images df) (selected config (enumerate 0 (unique (map cv df))))) \<and>
            map Some cvs = map (final_dice env df) (selected config (enumerate 0 (unique (map cv df)))) \<and>
            returned = None \<and>
            hd (fst (k_fold env config df log_folder [])) = Done (Print_average (np_mean cvs) (np_std cvs))"
  proof
    assume lf: "log_folder \<noteq> None"
    with early have late: "\<not> returns_early config log_folder" by simp
    with r(3) have "returned = None" by simp
    with r(1,2,5) v(1) late show "trained_folds (fst (k_fold env config df log_folder []))
              = map fst (selected config (enumerate 0 (unique (map cv df)))) \<and>
            validated (fst (k_fold env config df log_folder []))
              = concat (map (fold_images df) (selected config (enumerate 0 (unique (map cv df))))) \<and>
            map Some cvs = map (final_dice env df) (selected config (enumerate 0 (unique (map cv df)))) \<and>
            returned = None \<and>
            hd (fst (k_fold env config df log_folder [])) = Done (Print_average (np_mean cvs) (np_std cvs))"
      by (simp add: processed_def)
  qed
  moreover have "log_folder = None \<longrightarrow>
            trained_folds (fst (k_fold env config df log_folder []))
              = map fst (take 1 (selected config (enumerate 0 (unique (map cv df))))) \<and>
            validated (fst (k_fold env config df log_folder []))
              = concat (map (fold_images df) (take 1 (selected config (enumerate 0 (unique (map cv df)))))) \<and>
            map Some cvs
              = map (final_dice env df) (take 1 (selected config (enumerate 0 (unique (map cv df))))) \<and>
            returned = (case selected config (enumerate 0 (unique (map cv df))) of
                          [] \<Rightarrow> None | p # ps \<Rightarrow> fold_meter env df p) \<and>
            (returned = None \<longleftrightarrow> selected config (enumerate 0 (unique (map cv df))) = [])"
  proof
    assume lf: "log_folder = None"
    with early have e: "returns_early config log_folder" by simp
    have p: "processed config log_folder (enumerate 0 (unique (map cv df)))
               = take 1 (selected config (enumerate 0 (unique (map cv df))))"
      using e by (simp only: processed_def if_True)
    have n: "returned = None \<longleftrightarrow> selected config (enumerate 0 (unique (map cv df))) = []"
      using r(3) e by simp
    have m: "returned = (case selected config (enumerate 0 (unique (map cv df))) of
                          [] \<Rightarrow> None | p # ps \<Rightarrow> fold_meter env df p)"
      using v(2) e by (simp only: if_True)
    from r(1,2) v(1) p n m show "trained_folds (fst (k_fold env config df log_folder []))
              = map fst (take 1 (selected config (enumerate 0 (unique (map cv df))))) \<and>
            validated (fst (k_fold env config df log_folder []))
              = concat (map (fold_images df) (take 1 (selected config (enumerate 0 (unique (map cv df)))))) \<and>
            map Some cvs
              = map (final_dice env df) (take 1 (selected config (enumerate 0 (unique (map cv df))))) \<and>
            returned = (case selected config (enumerate 0 (unique (map cv df))) of
                          [] \<Rightarrow> None | p # ps \<Rightarrow> fold_meter env df p) \<and>
            (returned = None \<longleftrightarrow> selected config (enumerate 0 (unique (map cv df))) = [])"
      by (simp only: simp_thms)
  qed
  ultimately show ?thesis by blast
qed

text \<open>
  Claim C3, amended. Take a configuration with more than one entry in \<^verbatim>\<open>selected_folds\<close>
  and a run of \<^verbatim>\<open>k_fold\<close> that raises no error. When \<^verbatim>\<open>log_folder\<close> is given, the run
  processes every fold whose index is in \<^verbatim>\<open>selected_folds\<close>, in ascending order (it trains
  it, validates it on each of its validation images and appends its final-epoch score to
  \<^verbatim>\<open>cvs\<close>), and does not return early: it ends with the print of line 188 and returns
  \<open>None\<close>. When \<^verbatim>\<open>log_folder\<close> is \<open>None\<close>, the run processes only the first fold whose
  index is in \<^verbatim>\<open>selected_folds\<close> and returns that fold's meter at line 183; it returns
  \<open>None\<close> exactly when no index in \<^verbatim>\<open>selected_folds\<close> is the index of a fold. And
  \<^verbatim>\<open>k_fold\<close> raises no error when every collaborator returns and every training history
  has an epoch.
\<close>

theorem k_fold_multi_fold_early_return:
  assumes "1 < length (selected_folds config)"
  shows "(always_returns env \<longrightarrow>
            (\<exists>cvs' returned'. snd (k_fold env config df log_folder []) = Inr (cvs', returned'))) \<and>
         (snd (k_fold env config df log_folder []) = Inr (cvs, returned) \<longrightarrow>
            map fst (selected config (enumerate 0 (unique (map cv df))))
               = filter (\<lambda>i. int i \<in> set (selected_folds config)) [0..<length (unique (map cv df))] \<and>
             (log_folder \<noteq> None \<longrightarrow>
                trained_folds (fst (k_fold env config df log_folder []))
                  = map fst (selected config (enumerate 0 (unique (map cv df)))) \<and>
                validated (fst (k_fold env config df log_folder []))
                  = concat (map (fold_images df) (selected config (enumerate 0 (unique (map cv df))))) \<and>
                map Some cvs = map (final_dice env df) (selected config (enumerate 0 (unique (map cv df)))) \<and>
                returned = None \<and>
                hd (fst (k_fold env config df log_folder [])) = Done (Print_average (np_mean cvs) (np_std cvs))) \<and>
             (log_folder = None \<longrightarrow>
                trained_folds (fst (k_fold env config df log_folder []))
                  = map fst (take 1 (selected config (enumerate 0 (unique (map cv df))))) \<and>
                validated (fst (k_fold env config df log_folder []))
                  = concat (map (fold_images df) (take 1 (selected config (enumerate 0 (unique (map cv df)))))) \<and>
                map Some cvs
                  = map (final_dice env df) (take 1 (selected config (enumerate 0 (unique (map cv df))))) \<and>
                returned = (case selected config (enumerate 0 (unique (map cv df))) of
                              [] \<Rightarrow> None | p # ps \<Rightarrow> fold_meter env df p) \<and>
                (returned = None \<longleftrightarrow> selected config (enumerate 0 (unique (map cv df))) = [])))"
  using k_fold_returns[of env config df log_folder] k_fold_multi_fold_run[OF assms, of env df log_folder cvs returned]
  by blast

theorem k_fold_multi_fold_early_return_witness:
  "1 < length (selected_folds (demo_config [0, 1])) \<and>
   always_returns demo_train_env \<and>
   selected (demo_config [0, 1]) (enumerate 0 (unique (map cv demo_df))) = [(0, 7), (1, 9)] \<and>
   snd (k_fold demo_train_env (demo_config [0, 1]) demo_df (Some ''log/'') []) = Inr ([1, 3], None) \<and>
   trained_folds (fst (k_fold demo_train_env (demo_config [0, 1]) demo_df (Some ''log/'') [])) = [0, 1] \<and>
   validated (fst (k_fold demo_train_env (demo_config [0, 1]) demo_df (Some ''log/'') []))
     = [(0, ''a''), (1, ''b'')] \<and>
   map (final_dice demo_train_env demo_df) [(0, 7), (1, 9)] = [Some 1, Some 3] \<and>
   hd (fst (k_fold demo_train_env (demo_config [0, 1]) demo_df (Some ''log/'') []))
     = Done (Print_average (Some 2) (Some 1)) \<and>
   snd (k_fold demo_train_env (demo_config [0, 1]) demo_df None []) = Inr ([1], Some 0) \<and>
   trained_folds (fst (k_fold demo_train_env (demo_config [0, 1]) demo_df None [])) = [0] \<and>
   validated (fst (k_fold demo_train_env (demo_config [0, 1]) demo_df None [])) = [(0, ''a'')] \<and>
   fold_meter demo_train_env demo_df (0, 7) = Some 0"
  using demo_always_returns
    k_fold_multi_fold_early_return[of "demo_config [0, 1]" demo_train_env demo_df "Some ''log/''" "[1, 3]" None]
    k_fold_multi_fold_early_return[of "demo_config [0, 1]" demo_train_env demo_df None "[1]" "Some 0"]
  by (simp add: run_defs demo_defs selected_def final_dice_def fold_meter_def validated_def fold_images_def)

text \<open>
  Claim C4 as stated fails: with the single selected fold 0 and a log folder, \<^verbatim>\<open>k_fold\<close>
  trains the fold, returns its meter at line 183 and prints no mean and no standard
  deviation.
\<close>

theorem k_fold_single_fold_reports_nothing:
  "snd (k_fold demo_train_env (demo_config [0]) demo_df (Some ''log/'') []) = Inr ([1], Some 0) \<and>
   trained_folds (fst (k_fold demo_train_env (demo_config [0]) demo_df (Some ''log/'') [])) = [0] \<and>
   reports (fst (k_fold demo_train_env (demo_config [0]) demo_df (Some ''log/'') [])) = []"
  by (simp add: run_defs demo_defs)

lemma k_fold_report_run:
  assumes "snd (k_fold env config df log_folder []) = Inr (cvs, returned)"
  shows "(returned = None \<longleftrightarrow>
            (log_folder \<noteq> None \<and> length (selected_folds config) \<noteq> 1) \<or>
            filter (\<lambda>i. int i \<in> set (selected_folds config)) [0..<length (unique (map cv df))] = []) \<and>
         (if returned = None
          then hd (fst (k_fold env config df log_folder []))
                 = Done (Print_average (np_mean cvs) (np_std cvs)) \<and>
               reports (fst (k_fold env config df log_folder [])) = [(np_mean cvs, np_std cvs)] \<and>
               map Some cvs = map (final_dice env df)
                 (selected config (enumerate 0 (unique (map cv df))))
          else reports (fst (k_fold env config df log_folder [])) = [] \<and>
               (\<exists>p ps meter.
                  selected config (enumerate 0 (unique (map cv df))) = p # ps \<and>
                  fold_meter env df p = Some meter \<and> returned = Some meter \<and>
                  trained_folds (fst (k_fold env config df log_folder [])) = [fst p]))"
proof -
  note r = k_fold_run[OF assms] and v = k_fold_run_validated(2)[OF assms]
  have sel: "returned = None \<Longrightarrow>
          processed config log_folder (enumerate 0 (unique (map cv df)))
            = selected config (enumerate 0 (unique (map cv df)))"
    using r(3) by (auto simp: processed_def)
  have meter: "\<exists>p ps meter.
                  selected config (enumerate 0 (unique (map cv df))) = p # ps \<and>
                  fold_meter env df p = Some meter \<and> returned = Some meter \<and>
                  trained_folds (fst (k_fold env config df log_folder [])) = [fst p]"
    if "returned \<noteq> None"
  proof -
    from that v have early: "returns_early config log_folder" by (auto split: if_splits)
    with that v obtain p ps where
      p: "selected config (enumerate 0 (unique (map cv df))) = p # ps" "returned = fold_meter env df p"
      by (cases "selected config (enumerate 0 (unique (map cv df)))") auto
    from that p(2) obtain meter where "returned = Some meter" by auto
    moreover have "trained_folds (fst (k_fold env config df log_folder [])) = [fst p]"
      using r(1) early p(1) by (simp add: processed_def)
    ultimately show ?thesis using p by auto
  qed
  from r sel meter show ?thesis
    by (auto simp: returns_early_def selected_enumerate_Nil)
qed

text \<open>
  Claim C4, amended. A run of \<^verbatim>\<open>k_fold\<close> that raises no error returns \<open>None\<close> exactly
  when \<^verbatim>\<open>log_folder\<close> is given and \<^verbatim>\<open>len(selected_folds)\<close> is not 1, or no index in
  \<^verbatim>\<open>selected_folds\<close> is the index of a fold. Then the last thing it does is to print the
  mean and the standard deviation of \<^verbatim>\<open>cvs\<close>, which holds the final-epoch dice scores of
  all the folds whose index is selected (both are NaN when there is none). In every other
  run that raises no error it returns, at line 183, the meter of the first fold whose index
  is selected, has trained that fold only, and prints neither. And \<^verbatim>\<open>k_fold\<close> raises no
  error when every collaborator returns and every training history has an epoch.
\<close>

theorem k_fold_report:
  "(always_returns env \<longrightarrow>
      (\<exists>cvs' returned'. snd (k_fold env config df log_folder []) = Inr (cvs', returned'))) \<and>
   (snd (k_fold env config df log_folder []) = Inr (cvs, returned) \<longrightarrow>
      (returned = None \<longleftrightarrow>
                (log_folder \<noteq> None \<and> length (selected_folds config) \<noteq> 1) \<or>
                filter (\<lambda>i. int i \<in> set (selected_folds config)) [0..<length (unique (map cv df))] = []) \<and>
             (if returned = None
              then hd (fst (k_fold env config df log_folder []))
                     = Done (Print_average (np_mean cvs) (np_std cvs)) \<and>
                   reports (fst (k_fold env config df log_folder [])) = [(np_mean cvs, np_std cvs)] \<and>
                   map Some cvs = map (final_dice env df)
                     (selected config (enumerate 0 (unique (map cv df))))
              else reports (fst (k_fold env config df log_folder [])) = [] \<and>
                   (\<exists>p ps meter.
                      selected config (enumerate 0 (unique (map cv df))) = p # ps \<and>
                      fold_meter env df p = Some meter \<and> returned = Some meter \<and>
                      trained_folds (fst (k_fold env config df log_folder [])) = [fst p])))"
  using k_fold_returns[of env config df log_folder] k_fold_report_run[of env config df log_folder cvs returned]
  by blast

theorem k_fold_report_witness:
  "always_returns demo_train_env \<and>
   snd (k_fold demo_train_env (demo_config [0, 1]) demo_df (Some ''log/'') []) = Inr ([1, 3], None) \<and>
   hd (fst (k_fold demo_train_env (demo_config [0, 1]) demo_df (Some ''log/'') []))
     = Done (Print_average (Some 2) (Some 1)) \<and>
   np_mean [1, 3] = Some 2 \<and> np_std [1, 3] = Some 1 \<and>
   reports (fst (k_fold demo_train_env (demo_config [0, 1]) demo_df (Some ''log/'') [])) = [(Some 2, Some 1)] \<and>
   map (final_dice demo_train_env demo_df) (selected (demo_config [0, 1]) (enumerate 0 (unique (map cv demo_df))))
     = [Some 1, Some 3] \<and>
   snd (k_fold demo_train_env (demo_config [1]) demo_df (Some ''log/'') []) = Inr ([3], Some 1) \<and>
   reports (fst (k_fold demo_train_env (demo_config [1]) demo_df (Some ''log/'') [])) = [] \<and>
   selected (demo_config [1]) (enumerate 0 (unique (map cv demo_df))) = [(1, 9)] \<and>
   fold_meter demo_train_env demo_df (1, 9) = Some 1 \<and>
   trained_folds (fst (k_fold demo_train_env (demo_config [1]) demo_df (Some ''log/'') [])) = [1] \<and>
   snd (k_fold demo_train_env (demo_config [5]) demo_df (Some ''log/'') []) = Inr ([], None) \<and>
   hd (fst (k_fold demo_train_env (demo_config [5]) demo_df (Some ''log/'') []))
     = Done (Print_average None None)"
  using demo_always_returns
    k_fold_report[of demo_train_env "demo_config [0, 1]" demo_df "Some ''log/''" "[1, 3]" None]
    k_fold_report[of demo_train_env "demo_config [1]" demo_df "Some ''log/''" "[3]" "Some 1"]
    k_fold_report[of demo_train_env "demo_config [5]" demo_df "Some ''log/''" "[]" None]
  by (simp add: run_defs demo_defs selected_def final_dice_def fold_meter_def)

section \<open>Selected folds\<close>








section \<open>Models on the accelerator\<close>

text \<open>
  Claim C7. At every moment of a run of \<^verbatim>\<open>k_fold\<close> at most one model is resident on the
  accelerator (live, or deleted with the cache not yet emptied), and at the moment a model is
  constructed none is: the model of the fold before has been deleted and the cache emptied.
\<close>

theorem k_fold_one_model_at_a_time:
  assumes "fst (k_fold env config df log_folder []) = later @ e # earlier"
  shows "length (resident (e # earlier)) \<le> 1 \<and>
         (\<forall>m. Define_model m \<in> set (attempted e) \<longrightarrow> resident earlier = [])"
proof -
  have "one_model_at_a_time (later @ e # earlier)"
    using k_fold_models[of env config df log_folder] assms by simp
  then have "one_model_at_a_time (e # earlier)"
    by (rule one_model_suffix)
  then show ?thesis by simp
qed

theorem k_fold_one_model_at_a_time_witness:
  "fst (k_fold demo_train_env (demo_config [0, 1]) demo_df (Some ''log/'') [])
     = demo_fold_1 @ Done (Define_model 1) # demo_fold_0 \<and>
   Define_model 1 \<in> set (attempted (Done (Define_model 1) :: nat tevent entry)) \<and>
   resident demo_fold_0 = [] \<and>
   resident (Done (Define_model 1) # demo_fold_0) = [1] \<and>
   length (resident (Done (Define_model 1) # demo_fold_0)) \<le> 1"
  using k_fold_one_model_at_a_time[of demo_train_env "demo_config [0, 1]" demo_df "Some ''log/''"
      demo_fold_1 "Done (Define_model 1)" demo_fold_0]
  by (simp add: run_defs demo_defs demo_fold_0_def demo_fold_1_def)

section \<open>Training and validation rows\<close>

text \<open>
  Claim C8. For every fold that \<^verbatim>\<open>k_fold\<close> trains, the training rows are the rows whose
  value in the cv column differs from the fold's value and the validation rows are those
  whose value equals it; the two are disjoint, and together they are the whole dataframe
  (as sets and, counting repeated rows, as multisets).
\<close>

theorem k_fold_train_val_partition:
  assumes "Fit i df_train df_val \<in> set (events (fst (k_fold env config df log_folder [])))"
  shows "(\<exists>fold' \<in> cv ` set df.
            df_train = filter (\<lambda>r. cv r \<noteq> fold') df \<and> df_val = filter (\<lambda>r. cv r = fold') df) \<and>
         set df_train \<inter> set df_val = {} \<and>
         set df_train \<union> set df_val = set df \<and>
         mset df_train + mset df_val = mset df"
proof -
  from k_fold_event[OF assms] obtain fold' where
    f: "fold' \<in> cv ` set df" "df_train = df_train_of df fold'" "df_val = df_val_of df fold'"
    by auto
  have "mset df_train + mset df_val = mset df"
    unfolding f df_train_of_def df_val_of_def
    by (induction df) simp_all
  moreover have "set df_train \<inter> set df_val = {}" "set df_train \<union> set df_val = set df"
    unfolding f df_train_of_def df_val_of_def by auto
  ultimately show ?thesis
    using f by (auto simp: df_train_of_def df_val_of_def)
qed

theorem k_fold_train_val_partition_witness:
  "Fit 1 [\<lparr>cv = 7, tile_name = ''a_0''\<rparr>, \<lparr>cv = 7, tile_name = ''a_1''\<rparr>] [\<lparr>cv = 9, tile_name = ''b_0''\<rparr>]
     \<in> set (events (fst (k_fold demo_train_env (demo_config [0, 1]) demo_df (Some ''log/'') []))) \<and>
   set [\<lparr>cv = 7::nat, tile_name = ''a_0''\<rparr>, \<lparr>cv = 7, tile_name = ''a_1''\<rparr>] \<inter> set [\<lparr>cv = 9, tile_name = ''b_0''\<rparr>] = {} \<and>
   set [\<lparr>cv = 7::nat, tile_name = ''a_0''\<rparr>, \<lparr>cv = 7, tile_name = ''a_1''\<rparr>] \<union> set [\<lparr>cv = 9, tile_name = ''b_0''\<rparr>]
     = set demo_df \<and>
   mset [\<lparr>cv = 7::nat, tile_name = ''a_0''\<rparr>, \<lparr>cv = 7, tile_name = ''a_1''\<rparr>] + mset [\<lparr>cv = 9, tile_name = ''b_0''\<rparr>]
     = mset demo_df"
  using k_fold_train_val_partition[of 1 "[\<lparr>cv = 7, tile_name = ''a_0''\<rparr>, \<lparr>cv = 7, tile_name = ''a_1''\<rparr>]"
      "[\<lparr>cv = 9, tile_name = ''b_0''\<rparr>]" demo_train_env "demo_config [0, 1]" demo_df "Some ''log/''"]
  by (simp add: run_defs demo_defs)

section \<open>The list cvs\<close>

lemma processed_subset: "set (processed config lf efs) \<subseteq> set efs"
  by (auto simp: processed_def selected_def dest: in_set_takeD)

text \<open>
  Claim C9. The loop body of \<^verbatim>\<open>k_fold\<close> appends exactly one element to \<^verbatim>\<open>cvs\<close>, the
  final-epoch dice score of the fold it trained; so when \<^verbatim>\<open>k_fold\<close> finishes, \<^verbatim>\<open>cvs\<close>
  has one element per trained fold: the final-epoch scores of the trained folds, in the
  order of training.
\<close>

theorem k_fold_cvs:
  "(snd (k_fold env config df log_folder []) = Inr (cvs, returned) \<longrightarrow>
      length cvs = length (trained_folds (fst (k_fold env config df log_folder []))) \<and>
      map Some cvs = map (\<lambda>i. final_dice env df (i, unique (map cv df) ! i))
                       (trained_folds (fst (k_fold env config df log_folder [])))) \<and>
   (snd (k_fold_fold env config df log_folder i fold' cvs0 tr) = Inr (cvs1, returned1) \<longrightarrow>
      (\<exists>d. cvs1 = cvs0 @ [d] \<and> final_dice env df (i, fold') = Some d))"
proof (intro conjI impI)
  assume ok: "snd (k_fold env config df log_folder []) = Inr (cvs, returned)"
  let ?p = "processed config log_folder (enumerate 0 (unique (map cv df)))"
  note r = k_fold_run(1,2)[OF ok]
  have "map (final_dice env df) ?p = map (\<lambda>i. final_dice env df (i, unique (map cv df) ! i)) (map fst ?p)"
    using processed_subset[of config log_folder "enumerate 0 (unique (map cv df))"]
    by (auto simp: in_set_enumerate_eq)
  with r show "map Some cvs = map (\<lambda>i. final_dice env df (i, unique (map cv df) ! i))
                       (trained_folds (fst (k_fold env config df log_folder [])))"
    by simp
  from r show "length cvs = length (trained_folds (fst (k_fold env config df log_folder [])))"
    by (metis length_map)
next
  assume ok: "snd (k_fold_fold env config df log_folder i fold' cvs0 tr) = Inr (cvs1, returned1)"
  have "k_fold_fold env config df log_folder i fold' cvs0 tr
          = (fst (k_fold_fold env config df log_folder i fold' cvs0 tr), Inr (cvs1, returned1))"
    using ok by (simp add: prod_eq_iff)
  from k_fold_fold_Inr[OF this] show "\<exists>d. cvs1 = cvs0 @ [d] \<and> final_dice env df (i, fold') = Some d"
    by (auto simp: final_dice_def)
qed

theorem k_fold_cvs_witness:
  "snd (k_fold demo_train_env (demo_config [0, 1]) demo_df (Some ''log/'') []) = Inr ([1, 3], None) \<and>
   trained_folds (fst (k_fold demo_train_env (demo_config [0, 1]) demo_df (Some ''log/'') [])) = [0, 1] \<and>
   map (\<lambda>i. final_dice demo_train_env demo_df (i, unique (map cv demo_df) ! i)) [0, 1] = [Some 1, Some 3] \<and>
   snd (k_fold_fold demo_train_env (demo_config [0, 1]) demo_df (Some ''log/'') 1 9 [1] []) = Inr ([1, 3], None) \<and>
   final_dice demo_train_env demo_df (1, 9) = Some 3"
  using k_fold_cvs[of demo_train_env "demo_config [0, 1]" demo_df "Some ''log/''" "[1, 3]" None 1 9 "[1]" "[]"
      "[1, 3]" None]
  by (simp add: run_defs demo_defs final_dice_def)

end
